theory Spec2Isabelle
  imports Complex_Main
begin

section \<open>Errors\<close>

text \<open>
  A thrown JavaScript error: \<^verbatim>\<open>Error(message)\<close>, or the \<^verbatim>\<open>TypeError\<close> the engine
  raises when a property of \<^verbatim>\<open>undefined\<close> is read (its message depends on the engine).
  A function that can throw returns \<^verbatim>\<open>Inl\<close> of the error.
\<close>

datatype js_error = Error string | TypeError

section \<open>Overlay mouse click dispatcher\<close>

text \<open>
  \<^verbatim>\<open>OverlayMouseClickDispatcher\<close> keeps the attached overlays in the order they were
  attached. Its click listener walks that array from the last index down to index 0.
  For each overlay it reads the bounding client rectangle of the overlay element and
  the configuration flag \<^verbatim>\<open>detachOnOutsideClick\<close>.

  Coordinates are JavaScript numbers; the listener only compares them with \<^verbatim>\<open><\<close>,
  so they are modelled as reals (every finite double is a real, and a comparison does
  not round).  The call \<^verbatim>\<open>overlayRef.detach()\<close> belongs to \<^verbatim>\<open>OverlayRef\<close>; the
  model records each call by the identifier of the overlay it is made on.
\<close>

record client_rect =
  rect_left :: real
  rect_right :: real
  rect_top :: real
  rect_bottom :: real

record overlay_ref =
  overlay_id :: nat
  overlay_rect :: client_rect
  detachOnOutsideClick :: bool

record mouse_event =
  clientX :: real
  clientY :: real

definition isOutsideClick :: "mouse_event \<Rightarrow> client_rect \<Rightarrow> bool" where
  "isOutsideClick event overlayRect \<longleftrightarrow>
     clientX event < rect_left overlayRect \<and> rect_right overlayRect < clientX event \<and>
     clientY event < rect_top overlayRect \<and> rect_bottom overlayRect < clientY event"

text \<open>
  The body of the \<^verbatim>\<open>for\<close> loop, on the overlays still to be looked at, topmost first.
  The result lists the overlays on which \<^verbatim>\<open>detach()\<close> was called, in call order.
  The \<^verbatim>\<open>else return\<close> branch ends the loop.
\<close>

fun clickLoop :: "mouse_event \<Rightarrow> overlay_ref list \<Rightarrow> nat list" where
  "clickLoop event [] = []"
| "clickLoop event (overlayRef # rest) =
     (if isOutsideClick event (overlay_rect overlayRef)
      then (if detachOnOutsideClick overlayRef
            then overlay_id overlayRef # clickLoop event rest
            else clickLoop event rest)
      else [])"

text \<open>\<^verbatim>\<open>for (let i = overlays.length - 1; i > -1; i--)\<close>: the array is read backwards.\<close>

definition clickListener :: "mouse_event \<Rightarrow> overlay_ref list \<Rightarrow> nat list" where
  "clickListener event attachedOverlays = clickLoop event (rev attachedOverlays)"

text \<open>A rectangle as \<^verbatim>\<open>getBoundingClientRect\<close> returns it: width and height are not negative.\<close>

definition well_formed_rect :: "client_rect \<Rightarrow> bool" where
  "well_formed_rect r \<longleftrightarrow> rect_left r \<le> rect_right r \<and> rect_top r \<le> rect_bottom r"

section \<open>Progress bar\<close>

subsection \<open>JavaScript values\<close>

text \<open>
  The setters of \<^verbatim>\<open>MatProgressBar\<close> are typed \<^verbatim>\<open>number\<close>, but a template binding
  hands them whatever the application wrote: a number, a string, \<^verbatim>\<open>null\<close> or
  \<^verbatim>\<open>undefined\<close> (\<^verbatim>\<open>ngAcceptInputType_value\<close>).  A number is NaN, an infinity or
  a finite double.  The setters only test, compare and select numbers, which is exact on
  doubles, so a finite double is modelled by the real it denotes.  The sign of zero is not
  modelled: \<^verbatim>\<open>v || 0\<close> replaces either zero by \<^verbatim>\<open>0\<close> before it is used.
\<close>

datatype js_number = NaN | NegInfinity | Finite real | PosInfinity






fun math_min :: "js_number \<Rightarrow> js_number \<Rightarrow> js_number" where
  "math_min NaN y = NaN"
| "math_min x NaN = NaN"
| "math_min NegInfinity y = NegInfinity"
| "math_min x NegInfinity = NegInfinity"
| "math_min PosInfinity y = y"
| "math_min x PosInfinity = x"
| "math_min (Finite a) (Finite b) = Finite (min a b)"




datatype progress_bar_mode = Determinate | Indeterminate | Buffer | Query

fun mode_string :: "progress_bar_mode \<Rightarrow> string" where
  "mode_string Determinate = ''determinate''"
| "mode_string Indeterminate = ''indeterminate''"
| "mode_string Buffer = ''buffer''"
| "mode_string Query = ''query''"

subsection \<open>The material progress bar\<close>

record mat_progress_bar =
  pb_value :: js_number
  pb_bufferValue :: js_number
  pb_mode :: progress_bar_mode
  pb_isNoopAnimation :: bool
  pb_animationEnd :: "js_number list"






subsection \<open>The MDC-based progress bar\<close>

text \<open>
  The experimental component keeps the same three inputs and forwards them to an
  \<^verbatim>\<open>MDCLinearProgressFoundation\<close> once the view exists.  The foundation is a
  foreign object; the model records the calls made on it.  \<^verbatim>\<open>SetProgress x\<close> stands
  for \<^verbatim>\<open>setProgress(x / 100)\<close> and \<^verbatim>\<open>SetBuffer x\<close> for \<^verbatim>\<open>setBuffer(x / 100)\<close>: the
  dividend is recorded, not the quotient.
\<close>

datatype direction = Ltr | Rtl

datatype foundation_call =
  SetReverse bool | SetDeterminate bool | SetProgress js_number | SetBuffer js_number

record mdc_progress_bar =
  mdc_value :: js_number
  mdc_bufferValue :: js_number
  mdc_mode :: progress_bar_mode
  mdc_isNoopAnimation :: bool
  mdc_dir :: "direction option"
  mdc_isBrowser :: bool
  mdc_hasFoundation :: bool
  mdc_foundationCalls :: "foundation_call list"








subsection \<open>Assignments from outside\<close>







subsection \<open>Host bindings\<close>

text \<open>
  The \<^verbatim>\<open>host\<close> map of the \<^verbatim>\<open>@Component\<close> decorator.  A bound attribute whose
  expression is \<^verbatim>\<open>null\<close> is absent from the element (\<^verbatim>\<open>None\<close>); otherwise the
  element carries the value of the expression.
\<close>

record host_attributes =
  attr_role :: string
  attr_aria_valuemin :: string
  attr_aria_valuemax :: string
  attr_aria_valuenow :: "js_number option"
  attr_mode :: string
  attr_class :: string
  class_mat_animation_noopable :: bool

definition mat_host :: "mat_progress_bar \<Rightarrow> host_attributes" where
  "mat_host b =
     \<lparr>attr_role = ''progressbar'',
      attr_aria_valuemin = ''0'',
      attr_aria_valuemax = ''100'',
      attr_aria_valuenow =
        (if pb_mode b = Indeterminate \<or> pb_mode b = Query then None else Some (pb_value b)),
      attr_mode = mode_string (pb_mode b),
      attr_class = ''mat-progress-bar'',
      class_mat_animation_noopable = pb_isNoopAnimation b\<rparr>"

definition mdc_host :: "mdc_progress_bar \<Rightarrow> host_attributes" where
  "mdc_host b =
     \<lparr>attr_role = ''progressbar'',
      attr_aria_valuemin = ''0'',
      attr_aria_valuemax = ''100'',
      attr_aria_valuenow =
        (if mdc_mode b = Indeterminate \<or> mdc_mode b = Query then None else Some (mdc_value b)),
      attr_mode = mode_string (mdc_mode b),
      attr_class = ''mat-mdc-progress-bar'',
      class_mat_animation_noopable = mdc_isNoopAnimation b\<rparr>"

subsection \<open>The range invariant\<close>



section \<open>Testbed harness environment\<close>








section \<open>Version-keyed upgrade data\<close>

text \<open>The enum \<^verbatim>\<open>TargetVersion\<close> and its string values.\<close>

datatype target_version = V6 | V7 | V8 | V9 | V10

fun target_version_string :: "target_version \<Rightarrow> string" where
  "target_version_string V6 = ''version 6''"
| "target_version_string V7 = ''version 7''"
| "target_version_string V8 = ''version 8''"
| "target_version_string V9 = ''version 9''"
| "target_version_string V10 = ''version 10''"

text \<open>
  \<^verbatim>\<open>VersionChanges<T>\<close> is an object keyed by target version; under a key it holds a
  list of entries, one per pull request, each with the changes of type \<^verbatim>\<open>T\<close> that the
  pull request made.  A key may be missing.
\<close>

record 'a version_change =
  pr :: string
  changes :: "'a list"

type_synonym 'a version_changes = "target_version \<Rightarrow> 'a version_change list option"

text \<open>
  \<^verbatim>\<open>ClassNameUpgradeData\<close>: the name to replace and its replacement.  The element
  selector data read by \<^verbatim>\<open>ElementSelectorsRule\<close> has the same two properties.
\<close>

record upgrade_replacement =
  replace :: string
  replaceWith :: string

definition classNames :: "upgrade_replacement version_changes" where
  "classNames = Map.empty(V6 \<mapsto>
     [\<lparr>pr = ''https://github.com/angular/components/pull/10161'',
       changes = [\<lparr>replace = ''ConnectedOverlayDirective'', replaceWith = ''CdkConnectedOverlay''\<rparr>,
                  \<lparr>replace = ''OverlayOrigin'', replaceWith = ''CdkOverlayOrigin''\<rparr>]\<rparr>,
      \<lparr>pr = ''https://github.com/angular/components/pull/10267'',
       changes = [\<lparr>replace = ''ObserveContent'', replaceWith = ''CdkObserveContent''\<rparr>]\<rparr>,
      \<lparr>pr = ''https://github.com/angular/components/pull/10325'',
       changes = [\<lparr>replace = ''FocusTrapDirective'', replaceWith = ''CdkTrapFocus''\<rparr>]\<rparr>])"

text \<open>The keys of \<^verbatim>\<open>RuleUpgradeData\<close>.\<close>

datatype data_name =
  AttributeSelectors | ClassNames | ConstructorChecks | CssSelectors | ElementSelectors
| InputNames | MethodCallChecks | OutputNames | PropertyNames

text \<open>
  What \<^verbatim>\<open>getVersionUpgradeData\<close> reads of a migration rule: its target version and
  its upgrade data, one table per key.  The type \<^verbatim>\<open>'u\<close> stands for the change type
  \<^verbatim>\<open>U\<close> of the table that is asked for.
\<close>

record 'u migration_rule =
  targetVersion :: target_version
  upgradeData :: "data_name \<Rightarrow> 'u version_changes"

text \<open>
  Modelled from the spec: \<^verbatim>\<open>getChangesForTarget\<close> of \<^verbatim>\<open>update-tool/version-changes\<close>
  is not among the sources.  The tables are ``version-keyed'' and the rules applied are
  ``keyed by target version'': the changes for a target are those of all entries recorded
  under that target's key, in the order of the table, and none when the key is missing.
\<close>

definition getChangesForTarget :: "target_version \<Rightarrow> 'a version_changes \<Rightarrow> 'a list" where
  "getChangesForTarget target data =
     (case data target of None \<Rightarrow> [] | Some entries \<Rightarrow> concat (map changes entries))"

definition getVersionUpgradeData :: "'u migration_rule \<Rightarrow> data_name \<Rightarrow> 'u list" where
  "getVersionUpgradeData r dataName =
     getChangesForTarget (targetVersion r) (upgradeData r dataName)"

text \<open>
  The two field initialisers of \<^verbatim>\<open>ElementSelectorsRule\<close>:
  \<^verbatim>\<open>data = getVersionUpgradeData(this, 'elementSelectors')\<close> and
  \<^verbatim>\<open>ruleEnabled = this.data.length !== 0\<close>.
\<close>

record element_selectors_rule =
  rule_data :: "upgrade_replacement list"
  ruleEnabled :: bool

definition new_ElementSelectorsRule ::
  "upgrade_replacement migration_rule \<Rightarrow> element_selectors_rule" where
  "new_ElementSelectorsRule r =
     (let d = getVersionUpgradeData r ElementSelectors
      in \<lparr>rule_data = d, ruleEnabled = (length d \<noteq> 0)\<rparr>)"

section \<open>File system and update recorders\<close>

text \<open>
  Modelled from the spec: the file system of the update tool and its update recorders
  (\<^verbatim>\<open>FileSystem\<close>, \<^verbatim>\<open>DevkitFileSystem\<close>, \<^verbatim>\<open>UpdateRecorder\<close>) are not among the
  sources.  The tool is to ``record edits without mutating the AST in place, then commit
  all edits in one pass to avoid position drift''.  So the file system holds the text of
  every file and, for every file path, the edits recorded for it so far, oldest first;
  recording appends to that list and leaves the text alone.
\<close>

datatype recorded_edit = Remove nat nat | InsertLeft nat string | InsertRight nat string

record file_system =
  fs_contents :: "string \<Rightarrow> string option"
  fs_recorders :: "string \<Rightarrow> recorded_edit list"

definition record_edit :: "string \<Rightarrow> recorded_edit \<Rightarrow> file_system \<Rightarrow> file_system" where
  "record_edit filePath e fs =
     fs\<lparr>fs_recorders := (fs_recorders fs)(filePath := fs_recorders fs filePath @ [e])\<rparr>"

text \<open>\<^verbatim>\<open>getUpdateRecorder(filePath).remove(start, length)\<close>\<close>

definition recorder_remove :: "string \<Rightarrow> nat \<Rightarrow> nat \<Rightarrow> file_system \<Rightarrow> file_system" where
  "recorder_remove filePath start len fs = record_edit filePath (Remove start len) fs"

text \<open>\<^verbatim>\<open>getUpdateRecorder(filePath).insertRight(start, text)\<close>\<close>

definition recorder_insertRight :: "string \<Rightarrow> nat \<Rightarrow> string \<Rightarrow> file_system \<Rightarrow> file_system" where
  "recorder_insertRight filePath start txt fs = record_edit filePath (InsertRight start txt) fs"


section \<open>Syntax nodes and component resources\<close>

text \<open>
  What the update tool reads of a TypeScript node: whether it is a string literal, the
  kind of its parent if it has one, its text, its start offset, the name of its source
  file, and its children in the order \<^verbatim>\<open>ts.forEachChild\<close> passes them.
\<close>

datatype syntax_kind = CallExpression | OtherSyntaxKind

datatype ts_node =
  TsNode (isStringLiteralLike: bool) (parentKind: "syntax_kind option") (getText: string)
    (getStart: nat) (sourceFileName: string) (childNodes: "ts_node list")

text \<open>\<^verbatim>\<open>ResolvedResource\<close>: a template or stylesheet of a component.\<close>

record resolved_resource =
  res_filePath :: string
  res_content :: string
  res_start :: nat
  res_inline :: bool

section \<open>Element selectors rule\<close>

text \<open>
  \<^verbatim>\<open>findAllSubstringIndices\<close> is imported from \<^verbatim>\<open>../typescript/literal\<close>; it is a
  parameter of the visit functions.  The rule's three visit functions run the same
  nested loop: for each selector of the data, for each offset found, shifted by the
  start of the visited text, \<^verbatim>\<open>_replaceSelector\<close>.  The functions receive the node or
  resource and the file system and return the file system: the source assigns to no
  property of the node or resource it is given.
\<close>

definition replaceSelector ::
  "string \<Rightarrow> nat \<Rightarrow> upgrade_replacement \<Rightarrow> file_system \<Rightarrow> file_system" where
  "replaceSelector filePath start d fs =
     recorder_insertRight filePath start (replaceWith d)
       (recorder_remove filePath start (length (replace d)) fs)"

definition visitTemplate ::
  "(string \<Rightarrow> string \<Rightarrow> nat list) \<Rightarrow> element_selectors_rule \<Rightarrow> resolved_resource \<Rightarrow>
   file_system \<Rightarrow> file_system" where
  "visitTemplate findAllSubstringIndices this template fs =
     fold (\<lambda>selector.
             fold (\<lambda>start. replaceSelector (res_filePath template) start selector)
               (map (\<lambda>offset. res_start template + offset)
                  (findAllSubstringIndices (res_content template) (replace selector))))
       (rule_data this) fs"

definition visitStylesheet ::
  "(string \<Rightarrow> string \<Rightarrow> nat list) \<Rightarrow> element_selectors_rule \<Rightarrow> resolved_resource \<Rightarrow>
   file_system \<Rightarrow> file_system" where
  "visitStylesheet findAllSubstringIndices this stylesheet fs =
     fold (\<lambda>selector.
             fold (\<lambda>start. replaceSelector (res_filePath stylesheet) start selector)
               (map (\<lambda>offset. res_start stylesheet + offset)
                  (findAllSubstringIndices (res_content stylesheet) (replace selector))))
       (rule_data this) fs"

definition visitStringLiteralLike ::
  "(string \<Rightarrow> string \<Rightarrow> nat list) \<Rightarrow> element_selectors_rule \<Rightarrow> ts_node \<Rightarrow>
   file_system \<Rightarrow> file_system" where
  "visitStringLiteralLike findAllSubstringIndices this node fs =
     (if (case parentKind node of None \<Rightarrow> False | Some kind \<Rightarrow> kind \<noteq> CallExpression)
      then fs
      else
        (let textContent = getText node;
             filePath = sourceFileName node
         in fold (\<lambda>selector.
                    fold (\<lambda>start. replaceSelector filePath start selector)
                      (map (\<lambda>offset. getStart node + offset)
                         (findAllSubstringIndices textContent (replace selector))))
              (rule_data this) fs))"

definition visitNode ::
  "(string \<Rightarrow> string \<Rightarrow> nat list) \<Rightarrow> element_selectors_rule \<Rightarrow> ts_node \<Rightarrow>
   file_system \<Rightarrow> file_system" where
  "visitNode findAllSubstringIndices this node fs =
     (if isStringLiteralLike node
      then visitStringLiteralLike findAllSubstringIndices this node fs
      else fs)"

text \<open>
  The edits one visit of a text records, in order: for every selector and every offset
  at which it was found, the removal of the old selector and the insertion of the new
  one at the same position.
\<close>

definition selector_edits ::
  "(string \<Rightarrow> string \<Rightarrow> nat list) \<Rightarrow> upgrade_replacement list \<Rightarrow> string \<Rightarrow> nat \<Rightarrow>
   recorded_edit list" where
  "selector_edits findAllSubstringIndices selectors txt start =
     concat (map (\<lambda>selector.
        concat (map (\<lambda>offset. [Remove (start + offset) (length (replace selector)),
                                InsertRight (start + offset) (replaceWith selector)])
                  (findAllSubstringIndices txt (replace selector))))
       selectors)"

section \<open>Update project\<close>

subsection \<open>Programs, migrations and the host\<close>

text \<open>
  A \<^verbatim>\<open>ts.SourceFile\<close> is itself a node: the node at which the walk of a file
  starts, with the nodes of the file below it.  It has a file name and the two flags
  that \<^verbatim>\<open>migrate\<close> asks for.  No source file occurs below another node.
\<close>

record source_file =
  sf_fileName :: string
  sf_isDeclarationFile :: bool
  sf_isFromExternalLibrary :: bool
  sf_childNodes :: "ts_node list"

text \<open>A node as it is handed to \<^verbatim>\<open>visitNode\<close>: a source file, or a node below one.\<close>

datatype visited_node = SourceFile source_file | Node ts_node

fun forEachChild :: "visited_node \<Rightarrow> ts_node list" where
  "forEachChild (SourceFile f) = sf_childNodes f"
| "forEachChild (Node n) = childNodes n"

record program =
  getSourceFiles :: "source_file list"

text \<open>\<^verbatim>\<open>MigrationFailure\<close>; the position is a line and a character, both counted from 0.\<close>

record migration_failure =
  failure_filePath :: string
  failure_message :: string
  failure_position :: "(nat \<times> nat) option"

text \<open>
  The migration classes are not among the sources.  A migration is an object of some
  type \<^verbatim>\<open>'m\<close>, made from a constructor of type \<^verbatim>\<open>'c\<close>; the tool calls its methods
  and reads its \<^verbatim>\<open>enabled\<close> flag and its \<^verbatim>\<open>failures\<close>.  A method sees the file
  system, changes the migration and records edits, each for a file path.
  \<^verbatim>\<open>m_construct\<close> stands for \<^verbatim>\<open>new ctor(program, typeChecker, target, context, data,
  fileSystem, logger)\<close> followed by \<^verbatim>\<open>init()\<close>.
\<close>

record ('c, 'x, 'd, 'm) migration_api =
  m_construct :: "'c \<Rightarrow> program \<Rightarrow> target_version \<Rightarrow> 'x \<Rightarrow> 'd \<Rightarrow> file_system \<Rightarrow> 'm"
  m_enabled :: "'m \<Rightarrow> bool"
  m_visitNode :: "file_system \<Rightarrow> visited_node \<Rightarrow> 'm \<Rightarrow> 'm \<times> (string \<times> recorded_edit) list"
  m_visitTemplate ::
    "file_system \<Rightarrow> resolved_resource \<Rightarrow> 'm \<Rightarrow> 'm \<times> (string \<times> recorded_edit) list"
  m_visitStylesheet ::
    "file_system \<Rightarrow> resolved_resource \<Rightarrow> 'm \<Rightarrow> 'm \<times> (string \<times> recorded_edit) list"
  m_postAnalysis :: "file_system \<Rightarrow> 'm \<Rightarrow> 'm \<times> (string \<times> recorded_edit) list"
  m_failures :: "'m \<Rightarrow> migration_failure list"

text \<open>
  What the tool asks of its surroundings: \<^verbatim>\<open>fileSystem.resolve\<close>; the templates and
  stylesheets that \<^verbatim>\<open>ComponentResourceCollector.visitNode\<close> adds for a node;
  \<^verbatim>\<open>resolveExternalStylesheet(filePath, null)\<close>; and the way the host tree applies the
  edits of a recorder to a text.
\<close>

record tool_host =
  resolve :: "string \<Rightarrow> string"
  collectResources ::
    "file_system \<Rightarrow> visited_node \<Rightarrow> resolved_resource list \<times> resolved_resource list"
  resolveExternalStylesheet :: "file_system \<Rightarrow> string \<Rightarrow> resolved_resource"
  applyEdits :: "recorded_edit list \<Rightarrow> string \<Rightarrow> string"

subsection \<open>State\<close>

text \<open>
  An \<^verbatim>\<open>UpdateProject\<close> holds a context and a program of its own, and references to
  three objects that its creator shares among update projects: the file system, the set
  \<^verbatim>\<open>_analyzedFiles\<close> and the logger.  The model passes context and program as
  arguments and threads the shared objects as one state.  The state also keeps a trace:
  every call that the tool makes into its migrations, with the argument of the call, and
  every call of \<^verbatim>\<open>commitEdits\<close>, in the order in which they are made.
\<close>

datatype log_entry = LogInfo string | LogWarn string | LogError string

datatype migration_call =
  VisitNode visited_node
| VisitTemplate resolved_resource
| VisitStylesheet resolved_resource
| PostAnalysis

datatype trace_event = Called migration_call | CommitEdits

record tool_state =
  analyzedFiles :: "string set"
  fileSystem :: file_system
  logger :: "log_entry list"
  trace :: "trace_event list"

text \<open>
  The locals of one call of \<^verbatim>\<open>migrate\<close>: the migration instances and the two lists
  of the resource collector.
\<close>

record 'm migration_run =
  shared :: tool_state
  migrations :: "'m list"
  resolvedTemplates :: "resolved_resource list"
  resolvedStylesheets :: "resolved_resource list"

subsection \<open>Calling the migrations\<close>

definition record_edits :: "(string \<times> recorded_edit) list \<Rightarrow> file_system \<Rightarrow> file_system" where
  "record_edits es fs = fold (\<lambda>(filePath, e). record_edit filePath e) es fs"

text \<open>\<^verbatim>\<open>migrations.forEach(m => m.method(...))\<close>\<close>

fun forEachMigration ::
  "(file_system \<Rightarrow> 'm \<Rightarrow> 'm \<times> (string \<times> recorded_edit) list) \<Rightarrow> 'm list \<Rightarrow> file_system \<Rightarrow>
   'm list \<times> file_system" where
  "forEachMigration method [] fs = ([], fs)"
| "forEachMigration method (m # ms) fs =
     (case method fs m of
        (m', es) \<Rightarrow>
          (case forEachMigration method ms (record_edits es fs) of
             (ms', fs') \<Rightarrow> (m' # ms', fs')))"

text \<open>The method of a migration that a call stands for.\<close>

fun call_method ::
  "('c, 'x, 'd, 'm) migration_api \<Rightarrow> migration_call \<Rightarrow> file_system \<Rightarrow> 'm \<Rightarrow>
   'm \<times> (string \<times> recorded_edit) list" where
  "call_method api (VisitNode node) = (\<lambda>fs. m_visitNode api fs node)"
| "call_method api (VisitTemplate template) = (\<lambda>fs. m_visitTemplate api fs template)"
| "call_method api (VisitStylesheet stylesheet) = (\<lambda>fs. m_visitStylesheet api fs stylesheet)"
| "call_method api PostAnalysis = m_postAnalysis api"

text \<open>
  One call into all migrations, such as \<^verbatim>\<open>migrations.forEach(m => m.visitTemplate(template))\<close>.
  This is the only place where the tool calls a migration, and here the call is entered
  in the trace.
\<close>

definition visitInMigrations ::
  "('c, 'x, 'd, 'm) migration_api \<Rightarrow> migration_call \<Rightarrow> 'm migration_run \<Rightarrow>
   'm migration_run" where
  "visitInMigrations api call run =
     (case forEachMigration (call_method api call) (migrations run) (fileSystem (shared run)) of
        (ms, fs) \<Rightarrow>
          run\<lparr>shared := (shared run)\<lparr>fileSystem := fs,
                                     trace := trace (shared run) @ [Called call]\<rparr>,
              migrations := ms\<rparr>)"

text \<open>\<^verbatim>\<open>resourceCollector.visitNode(node)\<close>\<close>

definition collector_visitNode ::
  "tool_host \<Rightarrow> visited_node \<Rightarrow> 'm migration_run \<Rightarrow> 'm migration_run" where
  "collector_visitNode host node run =
     (case collectResources host (fileSystem (shared run)) node of
        (templates, stylesheets) \<Rightarrow>
          run\<lparr>resolvedTemplates := resolvedTemplates run @ templates,
              resolvedStylesheets := resolvedStylesheets run @ stylesheets\<rparr>)"

text \<open>
  The helper \<^verbatim>\<open>visitNodeAndCollectResources\<close>: the migrations visit the node, then
  the helper visits every child, then the collector visits the node.
\<close>

fun node_size :: "visited_node \<Rightarrow> nat" where
  "node_size (SourceFile f) = Suc (size_list size (sf_childNodes f))"
| "node_size (Node n) = size n"

function visitNodeAndCollectResources ::
  "('c, 'x, 'd, 'm) migration_api \<Rightarrow> tool_host \<Rightarrow> visited_node \<Rightarrow> 'm migration_run \<Rightarrow>
   'm migration_run" where
  "visitNodeAndCollectResources api host node run =
     collector_visitNode host node
       (fold (\<lambda>child. visitNodeAndCollectResources api host (Node child)) (forEachChild node)
          (visitInMigrations api (VisitNode node) run))"
  by pat_completeness auto
termination
proof (relation "measure (\<lambda>(api, host, node, run). node_size node)", goal_cases)
  case 1
  show ?case by simp
next
  case (2 api host node run child r)
  have "size child < node_size node"
  proof (cases node)
    case (SourceFile f)
    with 2 have "child \<in> set (sf_childNodes f)"
      by simp
    then have "size child \<le> size_list size (sf_childNodes f)"
      by (rule size_list_estimation') simp
    with SourceFile show ?thesis by simp
  next
    case (Node n)
    with 2 have "child \<in> set (childNodes n)"
      by simp
    then have "size child \<le> size_list size (childNodes n)"
      by (rule size_list_estimation') simp
    moreover have "size_list size (childNodes n) < size n"
      by (cases n) simp
    ultimately show ?thesis using Node by simp
  qed
  then show ?case by simp
qed

declare visitNodeAndCollectResources.simps [simp del]

subsection \<open>The four passes of \<^verbatim>\<open>migrate\<close>\<close>

text \<open>\<^verbatim>\<open>this._analyzedFiles.add(resolvedPath)\<close>\<close>

definition addAnalyzed :: "string \<Rightarrow> 'm migration_run \<Rightarrow> 'm migration_run" where
  "addAnalyzed resolvedPath run =
     run\<lparr>shared := (shared run)
            \<lparr>analyzedFiles := insert resolvedPath (analyzedFiles (shared run))\<rparr>\<rparr>"

definition visitSourceFile ::
  "('c, 'x, 'd, 'm) migration_api \<Rightarrow> tool_host \<Rightarrow> source_file \<Rightarrow> 'm migration_run \<Rightarrow>
   'm migration_run" where
  "visitSourceFile api host sourceFile run =
     (let resolvedPath = resolve host (sf_fileName sourceFile)
      in if resolvedPath \<notin> analyzedFiles (shared run)
         then addAnalyzed resolvedPath
                (visitNodeAndCollectResources api host (SourceFile sourceFile) run)
         else run)"

definition visitResolvedTemplate ::
  "('c, 'x, 'd, 'm) migration_api \<Rightarrow> tool_host \<Rightarrow> resolved_resource \<Rightarrow> 'm migration_run \<Rightarrow>
   'm migration_run" where
  "visitResolvedTemplate api host template run =
     (let resolvedPath = resolve host (res_filePath template)
      in if res_inline template \<or> resolvedPath \<notin> analyzedFiles (shared run)
         then addAnalyzed resolvedPath (visitInMigrations api (VisitTemplate template) run)
         else run)"

definition visitResolvedStylesheet ::
  "('c, 'x, 'd, 'm) migration_api \<Rightarrow> tool_host \<Rightarrow> resolved_resource \<Rightarrow> 'm migration_run \<Rightarrow>
   'm migration_run" where
  "visitResolvedStylesheet api host stylesheet run =
     (let resolvedPath = resolve host (res_filePath stylesheet)
      in if res_inline stylesheet \<or> resolvedPath \<notin> analyzedFiles (shared run)
         then addAnalyzed resolvedPath (visitInMigrations api (VisitStylesheet stylesheet) run)
         else run)"

text \<open>
  The body of the loop over the additional stylesheets, once the stylesheet of the path
  is at hand.
\<close>

definition visitExternalStylesheet ::
  "('c, 'x, 'd, 'm) migration_api \<Rightarrow> tool_host \<Rightarrow> string \<Rightarrow> resolved_resource \<Rightarrow>
   'm migration_run \<Rightarrow> 'm migration_run" where
  "visitExternalStylesheet api host filePath stylesheet run =
     (let resolvedPath = resolve host filePath
      in if resolvedPath \<notin> analyzedFiles (shared run)
         then addAnalyzed resolvedPath (visitInMigrations api (VisitStylesheet stylesheet) run)
         else run)"

definition visitAdditionalStylesheet ::
  "('c, 'x, 'd, 'm) migration_api \<Rightarrow> tool_host \<Rightarrow> string \<Rightarrow> 'm migration_run \<Rightarrow>
   'm migration_run" where
  "visitAdditionalStylesheet api host filePath run =
     visitExternalStylesheet api host filePath
       (resolveExternalStylesheet host (fileSystem (shared run)) filePath) run"

subsection \<open>Reporting failures\<close>

text \<open>A count in decimal digits, as a template literal prints a small whole number.\<close>

fun decimal :: "nat \<Rightarrow> string" where
  "decimal n =
     (if n < 10 then [''0123456789'' ! n]
      else decimal (n div 10) @ [''0123456789'' ! (n mod 10)])"

declare decimal.simps [simp del]

text \<open>\<^verbatim>\<open>.replace(/\\/g, '/')\<close>: every backslash becomes a slash.\<close>

definition posixFilePath :: "string \<Rightarrow> string" where
  "posixFilePath p = map (\<lambda>c. if c = CHR 0x5C then CHR ''/'' else c) p"

definition failure_warning :: "tool_host \<Rightarrow> migration_failure \<Rightarrow> string" where
  "failure_warning host f =
     posixFilePath (resolve host (failure_filePath f)) @
     (case failure_position f of
        Some (line, character) \<Rightarrow> ''@'' @ decimal (line + 1) @ '':'' @ decimal (character + 1)
      | None \<Rightarrow> '''') @
     '' - '' @ failure_message f"

record migrate_result =
  hasFailures :: bool

subsection \<open>\<^verbatim>\<open>UpdateProject.migrate\<close>\<close>

text \<open>\<^verbatim>\<open>_createMigrations\<close>: every constructor is instantiated; the enabled instances are kept.\<close>

definition createMigrations ::
  "('c, 'x, 'd, 'm) migration_api \<Rightarrow> 'x \<Rightarrow> program \<Rightarrow> file_system \<Rightarrow> 'c list \<Rightarrow>
   target_version \<Rightarrow> 'd \<Rightarrow> 'm list" where
  "createMigrations api ctx prog fs types target data =
     filter (m_enabled api) (map (\<lambda>ctor. m_construct api ctor prog target ctx data fs) types)"

text \<open>
  The statements of \<^verbatim>\<open>migrate\<close> up to the loop over the additional stylesheets:
  the migrations and the collector are created, then the source files, the resolved
  templates and the resolved stylesheets are walked.
\<close>

definition visitComponents ::
  "('c, 'x, 'd, 'm) migration_api \<Rightarrow> tool_host \<Rightarrow> 'x \<Rightarrow> program \<Rightarrow> 'c list \<Rightarrow>
   target_version \<Rightarrow> 'd \<Rightarrow> tool_state \<Rightarrow> 'm migration_run" where
  "visitComponents api host ctx prog migrationTypes target data st =
     (let run0 = \<lparr>shared = st,
                  migrations = createMigrations api ctx prog (fileSystem st)
                                 migrationTypes target data,
                  resolvedTemplates = [], resolvedStylesheets = []\<rparr>;
          sourceFiles = filter (\<lambda>f. \<not> sf_isDeclarationFile f \<and> \<not> sf_isFromExternalLibrary f)
                          (getSourceFiles prog);
          run1 = fold (visitSourceFile api host) sourceFiles run0;
          run2 = fold (visitResolvedTemplate api host) (resolvedTemplates run1) run1
      in fold (visitResolvedStylesheet api host) (resolvedStylesheets run2) run2)"

text \<open>
  The statements after that loop: \<^verbatim>\<open>postAnalysis\<close> in every migration, the
  failures of all migrations collected by \<^verbatim>\<open>reduce\<close>, a warning logged for each, and
  the result.
\<close>

definition collectFailures :: "('c, 'x, 'd, 'm) migration_api \<Rightarrow> 'm list \<Rightarrow> migration_failure list" where
  "collectFailures api ms = foldl (\<lambda>res m. res @ m_failures api m) [] ms"

definition warnFailures :: "tool_host \<Rightarrow> migration_failure list \<Rightarrow> tool_state \<Rightarrow> tool_state" where
  "warnFailures host failures st =
     fold (\<lambda>f s. s\<lparr>logger := logger s @ [LogWarn (failure_warning host f)]\<rparr>) failures st"

definition reportFailures ::
  "('c, 'x, 'd, 'm) migration_api \<Rightarrow> tool_host \<Rightarrow> 'm migration_run \<Rightarrow>
   tool_state \<times> migrate_result" where
  "reportFailures api host run =
     (let run' = visitInMigrations api PostAnalysis run;
          failures = collectFailures api (migrations run');
          st = (if length failures \<noteq> 0 then warnFailures host failures (shared run')
                else shared run')
      in (st, \<lparr>hasFailures = (length failures \<noteq> 0)\<rparr>))"

text \<open>
  \<^verbatim>\<open>migrate\<close>.  The parameter \<^verbatim>\<open>additionalStylesheetPaths\<close> is optional; when it is
  left out, \<^verbatim>\<open>additionalStylesheetPaths.forEach\<close> reads a property of
  \<^verbatim>\<open>undefined\<close> and the call ends there with a \<^verbatim>\<open>TypeError\<close>.  The shared objects
  are returned in either case, as the caller finds them.
\<close>

definition migrate ::
  "('c, 'x, 'd, 'm) migration_api \<Rightarrow> tool_host \<Rightarrow> 'x \<Rightarrow> program \<Rightarrow> 'c list \<Rightarrow>
   target_version \<Rightarrow> 'd \<Rightarrow> string list option \<Rightarrow> tool_state \<Rightarrow>
   tool_state \<times> (js_error + migrate_result)" where
  "migrate api host ctx prog migrationTypes target data additionalStylesheetPaths st =
     (let run = visitComponents api host ctx prog migrationTypes target data st
      in case additionalStylesheetPaths of
           None \<Rightarrow> (shared run, Inl TypeError)
         | Some paths \<Rightarrow>
             (case reportFailures api host
                     (fold (visitAdditionalStylesheet api host) paths run) of
                (st', result) \<Rightarrow> (st', Inr result)))"

subsection \<open>When an additional stylesheet cannot be read\<close>

text \<open>
  \<^verbatim>\<open>resolveExternalStylesheet\<close> has to read the file it is asked for, and a read can
  throw.  In \<^verbatim>\<open>migrate\<close> above the host's function is one that returns, which is
  the case when every path that is passed can be read, as in \<^verbatim>\<open>runMigrations\<close>,
  which passes the files that a glob has just found.  In general the call either gives
  the stylesheet or throws; then the loop over the additional stylesheets ends at the
  first path for which it throws, and \<^verbatim>\<open>migrate\<close> with it.
\<close>

type_synonym stylesheet_reader = "file_system \<Rightarrow> string \<Rightarrow> js_error + resolved_resource"

fun visitAdditionalStylesheets_reading ::
  "('c, 'x, 'd, 'm) migration_api \<Rightarrow> tool_host \<Rightarrow> stylesheet_reader \<Rightarrow> string list \<Rightarrow>
   'm migration_run \<Rightarrow> js_error option \<times> 'm migration_run" where
  "visitAdditionalStylesheets_reading api host reader [] run = (None, run)"
| "visitAdditionalStylesheets_reading api host reader (filePath # rest) run =
     (case reader (fileSystem (shared run)) filePath of
        Inl e \<Rightarrow> (Some e, run)
      | Inr stylesheet \<Rightarrow>
          visitAdditionalStylesheets_reading api host reader rest
            (visitExternalStylesheet api host filePath stylesheet run))"

definition migrate_reading ::
  "('c, 'x, 'd, 'm) migration_api \<Rightarrow> tool_host \<Rightarrow> stylesheet_reader \<Rightarrow> 'x \<Rightarrow> program \<Rightarrow>
   'c list \<Rightarrow> target_version \<Rightarrow> 'd \<Rightarrow> string list option \<Rightarrow> tool_state \<Rightarrow>
   tool_state \<times> (js_error + migrate_result)" where
  "migrate_reading api host reader ctx prog migrationTypes target data
       additionalStylesheetPaths st =
     (let run = visitComponents api host ctx prog migrationTypes target data st
      in case additionalStylesheetPaths of
           None \<Rightarrow> (shared run, Inl TypeError)
         | Some paths \<Rightarrow>
             (case visitAdditionalStylesheets_reading api host reader paths run of
                (Some e, run') \<Rightarrow> (shared run', Inl e)
              | (None, run') \<Rightarrow>
                  (case reportFailures api host run' of
                     (st', result) \<Rightarrow> (st', Inr result))))"

text \<open>
  The run of \<^verbatim>\<open>migrate\<close> as it stands when the call ends or throws, with the
  migrations as they then are.
\<close>

definition final_run ::
  "('c, 'x, 'd, 'm) migration_api \<Rightarrow> tool_host \<Rightarrow> stylesheet_reader \<Rightarrow> 'x \<Rightarrow> program \<Rightarrow>
   'c list \<Rightarrow> target_version \<Rightarrow> 'd \<Rightarrow> string list option \<Rightarrow> tool_state \<Rightarrow>
   'm migration_run" where
  "final_run api host reader ctx prog migrationTypes target data additionalStylesheetPaths st =
     (let run = visitComponents api host ctx prog migrationTypes target data st
      in case additionalStylesheetPaths of
           None \<Rightarrow> run
         | Some paths \<Rightarrow>
             (case visitAdditionalStylesheets_reading api host reader paths run of
                (Some e, run') \<Rightarrow> run'
              | (None, run') \<Rightarrow> visitInMigrations api PostAnalysis run'))"

subsection \<open>Reading the trace\<close>

text \<open>
  The file that a call visits, by its resolved path: the source file at which a walk
  starts, or the template or stylesheet that is handed over.  The calls for the nodes
  below a source file belong to the walk of that file.
\<close>

fun visited_path :: "tool_host \<Rightarrow> trace_event \<Rightarrow> string option" where
  "visited_path host (Called (VisitNode (SourceFile f))) = Some (resolve host (sf_fileName f))"
| "visited_path host (Called (VisitNode (Node n))) = None"
| "visited_path host (Called (VisitTemplate template)) = Some (resolve host (res_filePath template))"
| "visited_path host (Called (VisitStylesheet stylesheet)) =
     Some (resolve host (res_filePath stylesheet))"
| "visited_path host (Called PostAnalysis) = None"
| "visited_path host CommitEdits = None"

text \<open>Whether a call hands over an inline template or stylesheet.\<close>

fun inline_visit :: "trace_event \<Rightarrow> bool" where
  "inline_visit (Called (VisitTemplate template)) = res_inline template"
| "inline_visit (Called (VisitStylesheet stylesheet)) = res_inline stylesheet"
| "inline_visit e = False"

text \<open>
  The resolved paths of the visits in a trace, and those of the visits that are not of
  inline resources.
\<close>

fun visited_paths :: "tool_host \<Rightarrow> trace_event list \<Rightarrow> string list" where
  "visited_paths host [] = []"
| "visited_paths host (e # evs) =
     (case visited_path host e of
        None \<Rightarrow> visited_paths host evs
      | Some p \<Rightarrow> p # visited_paths host evs)"

fun checked_paths :: "tool_host \<Rightarrow> trace_event list \<Rightarrow> string list" where
  "checked_paths host [] = []"
| "checked_paths host (e # evs) =
     (if inline_visit e then checked_paths host evs
      else (case visited_path host e of
              None \<Rightarrow> checked_paths host evs
            | Some p \<Rightarrow> p # checked_paths host evs))"

text \<open>The calls into the migrations that a trace holds.\<close>

fun calls_of :: "trace_event list \<Rightarrow> migration_call list" where
  "calls_of [] = []"
| "calls_of (Called c # evs) = c # calls_of evs"
| "calls_of (CommitEdits # evs) = calls_of evs"

text \<open>The events added to the trace between an earlier state and a later one.\<close>

definition new_events :: "tool_state \<Rightarrow> tool_state \<Rightarrow> trace_event list" where
  "new_events st st' = drop (length (trace st)) (trace st')"

text \<open>
  From \<^verbatim>\<open>st\<close> to \<^verbatim>\<open>st'\<close> the trace only grew; no path was visited twice under
  the check, none that was analyzed before; and the analyzed files grew by exactly the
  visited paths.
\<close>

definition visits_once :: "tool_host \<Rightarrow> tool_state \<Rightarrow> tool_state \<Rightarrow> bool" where
  "visits_once host st st' \<longleftrightarrow>
     trace st' = trace st @ new_events st st' \<and>
     distinct (checked_paths host (new_events st st')) \<and>
     set (checked_paths host (new_events st st')) \<inter> analyzedFiles st = {} \<and>
     analyzedFiles st' = analyzedFiles st \<union> set (visited_paths host (new_events st st'))"


text \<open>
  From \<^verbatim>\<open>st\<close> to \<^verbatim>\<open>st'\<close> the migrations were called for nodes below a source
  file and nothing else happened: this is what the walk of such a node does.
\<close>

fun inner_call :: "trace_event \<Rightarrow> bool" where
  "inner_call (Called (VisitNode (Node n))) = True"
| "inner_call e = False"

definition inner_walk :: "tool_state \<Rightarrow> tool_state \<Rightarrow> bool" where
  "inner_walk st st' \<longleftrightarrow>
     trace st' = trace st @ new_events st st' \<and>
     list_all inner_call (new_events st st') \<and>
     analyzedFiles st' = analyzedFiles st \<and> logger st' = logger st \<and>
     fs_contents (fileSystem st') = fs_contents (fileSystem st)"

text \<open>
  What \<^verbatim>\<open>migrate\<close> relies on when it marks an additional stylesheet as analyzed
  under the path it was given: that \<^verbatim>\<open>resolveExternalStylesheet\<close>, when it returns,
  returns the stylesheet of that very path, as an external one.
\<close>

definition reads_external :: "stylesheet_reader \<Rightarrow> bool" where
  "reads_external reader \<longleftrightarrow>
     (\<forall>fs p stylesheet. reader fs p = Inr stylesheet \<longrightarrow>
        res_filePath stylesheet = p \<and> \<not> res_inline stylesheet)"

text \<open>
  A migration that does nothing but keep the calls it gets, in order.  It shows what
  reaches a migration.
\<close>

definition recording_api :: "(unit, 'x, 'd, migration_call list) migration_api" where
  "recording_api =
     \<lparr>m_construct = (\<lambda>ctor prog target ctx data fs. []),
      m_enabled = (\<lambda>m. True),
      m_visitNode = (\<lambda>fs node m. (m @ [VisitNode node], [])),
      m_visitTemplate = (\<lambda>fs template m. (m @ [VisitTemplate template], [])),
      m_visitStylesheet = (\<lambda>fs stylesheet m. (m @ [VisitStylesheet stylesheet], [])),
      m_postAnalysis = (\<lambda>fs m. (m @ [PostAnalysis], [])),
      m_failures = (\<lambda>m. [])\<rparr>"

text \<open>
  The run holds one migration, and what that migration has kept is the calls that the
  trace has gained since it read \<^verbatim>\<open>T\<close>.
\<close>

definition keeps_calls :: "trace_event list \<Rightarrow> migration_call list migration_run \<Rightarrow> bool" where
  "keeps_calls T run \<longleftrightarrow>
     take (length T) (trace (shared run)) = T \<and>
     migrations run = [calls_of (drop (length T) (trace (shared run)))]"

text \<open>
  A sequence of calls of \<^verbatim>\<open>migrate\<close>, each by an update project of its own, all on
  the same shared objects.  A call that throws does not stop the sequence here: the next
  call finds the shared objects as the failed one left them.
\<close>

record ('c, 'x, 'd) migrate_call =
  call_context :: 'x
  call_program :: program
  call_migrationTypes :: "'c list"
  call_target :: target_version
  call_data :: 'd
  call_additionalStylesheetPaths :: "string list option"

definition migrate_call ::
  "('c, 'x, 'd, 'm) migration_api \<Rightarrow> tool_host \<Rightarrow> stylesheet_reader \<Rightarrow>
   ('c, 'x, 'd) migrate_call \<Rightarrow> tool_state \<Rightarrow> tool_state" where
  "migrate_call api host reader c st =
     fst (migrate_reading api host reader (call_context c) (call_program c)
            (call_migrationTypes c) (call_target c) (call_data c)
            (call_additionalStylesheetPaths c) st)"

definition migrate_all ::
  "('c, 'x, 'd, 'm) migration_api \<Rightarrow> tool_host \<Rightarrow> stylesheet_reader \<Rightarrow>
   ('c, 'x, 'd) migrate_call list \<Rightarrow> tool_state \<Rightarrow> tool_state" where
  "migrate_all api host reader calls st = fold (migrate_call api host reader) calls st"

section \<open>The migration schematic rule\<close>











section \<open>A small project to run the tool on\<close>

text \<open>
  One source file \<^verbatim>\<open>a.ts\<close> with a class \<^verbatim>\<open>C\<close>, a component with the external template
  \<^verbatim>\<open>a.html\<close> and an inline template.  One migration; it reports a failure at every
  template it visits and records the removal of the template's first character.
\<close>

definition sample_api :: "(string, unit, unit, migration_failure list) migration_api" where
  "sample_api =
     \<lparr>m_construct = (\<lambda>ctor prog target ctx data fs. []),
      m_enabled = (\<lambda>m. True),
      m_visitNode = (\<lambda>fs node m. (m, [])),
      m_visitTemplate = (\<lambda>fs template m.
         (m @ [\<lparr>failure_filePath = res_filePath template,
                 failure_message = ''old selector'',
                 failure_position = Some (0, 41)\<rparr>],
          [(res_filePath template, Remove 0 1)])),
      m_visitStylesheet = (\<lambda>fs stylesheet m. (m, [])),
      m_postAnalysis = (\<lambda>fs m. (m, [])),
      m_failures = (\<lambda>m. m)\<rparr>"

definition sample_host :: tool_host where
  "sample_host =
     \<lparr>resolve = (\<lambda>p. p),
      collectResources = (\<lambda>fs node.
         case node of
           SourceFile f \<Rightarrow> ([], [])
         | Node n \<Rightarrow>
             if getText n = ''C''
             then ([\<lparr>res_filePath = ''a.html'', res_content = ''x'', res_start = 0,
                      res_inline = False\<rparr>,
                    \<lparr>res_filePath = ''a.ts'', res_content = ''y'', res_start = 7,
                      res_inline = True\<rparr>], [])
             else ([], [])),
      resolveExternalStylesheet = (\<lambda>fs p.
         \<lparr>res_filePath = p, res_content = [], res_start = 0, res_inline = False\<rparr>),
      applyEdits = (\<lambda>es s. s)\<rparr>"

text \<open>
  Reading a stylesheet: every stylesheet is found but \<^verbatim>\<open>missing.css\<close>, for which the
  read throws.
\<close>

definition sample_read :: "string \<Rightarrow> js_error + resolved_resource" where
  "sample_read p =
     (if p = ''missing.css''
      then Inl (Error ''ENOENT: no such file or directory'')
      else Inr \<lparr>res_filePath = p, res_content = [], res_start = 0, res_inline = False\<rparr>)"

definition sample_reader :: stylesheet_reader where
  "sample_reader = (\<lambda>fs. sample_read)"

definition sample_program :: program where
  "sample_program =
     \<lparr>getSourceFiles =
        [\<lparr>sf_fileName = ''a.ts'', sf_isDeclarationFile = False,
          sf_isFromExternalLibrary = False,
          sf_childNodes =
            [TsNode False (Some OtherSyntaxKind) ''C'' 0 ''a.ts''
               [TsNode True (Some OtherSyntaxKind) ''k'' 3 ''a.ts'' []]]\<rparr>]\<rparr>"

definition sample_state :: tool_state where
  "sample_state =
     \<lparr>analyzedFiles = {},
      fileSystem = \<lparr>fs_contents = (\<lambda>p. None), fs_recorders = (\<lambda>p. [])\<rparr>,
      logger = [], trace = []\<rparr>"

text \<open>A call of \<^verbatim>\<open>migrate\<close> for the project, with one additional stylesheet.\<close>

definition sample_call :: "(string, unit, unit) migrate_call" where
  "sample_call =
     \<lparr>call_context = (), call_program = sample_program, call_migrationTypes = [''M''],
      call_target = V6, call_data = (),
      call_additionalStylesheetPaths = Some [''g.css'']\<rparr>"

lemmas sample_defs =
  sample_api_def sample_host_def sample_program_def sample_state_def sample_reader_def
  sample_read_def sample_call_def
  migrate_def migrate_reading_def visitComponents_def createMigrations_def visitSourceFile_def
  visitResolvedTemplate_def visitResolvedStylesheet_def visitAdditionalStylesheet_def
  visitExternalStylesheet_def visitNodeAndCollectResources.simps
  addAnalyzed_def visitInMigrations_def collector_visitNode_def record_edits_def
  record_edit_def reportFailures_def collectFailures_def warnFailures_def Let_def

section \<open>Properties of the overlay mouse click dispatcher\<close>

lemma isOutsideClick_well_formed:
  "well_formed_rect r \<Longrightarrow> \<not> isOutsideClick event r"
  by (auto simp: isOutsideClick_def well_formed_rect_def)

lemma clickLoop_well_formed:
  "\<forall>ov\<in>set ovs. well_formed_rect (overlay_rect ov) \<Longrightarrow> clickLoop event ovs = []"
  by (cases ovs) (simp_all add: isOutsideClick_well_formed)

text \<open>
  Claim C9.  For every click and every list of attached overlays whose rectangles are
  well formed (left \<le> right and top \<le> bottom), the listener computes
  \<^verbatim>\<open>isOutsideClick\<close> as false for each of them and calls \<^verbatim>\<open>detach()\<close> on none,
  whatever their \<^verbatim>\<open>detachOnOutsideClick\<close> setting is.
\<close>

theorem clickListener_never_detaches:
  assumes "\<forall>ov\<in>set attachedOverlays. well_formed_rect (overlay_rect ov)"
  shows "(\<forall>ov\<in>set attachedOverlays. \<not> isOutsideClick event (overlay_rect ov)) \<and>
         clickListener event attachedOverlays = []"
proof
  show "\<forall>ov\<in>set attachedOverlays. \<not> isOutsideClick event (overlay_rect ov)"
    using assms by (simp add: isOutsideClick_well_formed)
next
  have "\<forall>ov\<in>set (rev attachedOverlays). well_formed_rect (overlay_rect ov)"
    using assms by simp
  then show "clickListener event attachedOverlays = []"
    unfolding clickListener_def by (rule clickLoop_well_formed)
qed

text \<open>
  The theorem at a click at (500, 500), far outside the one attached overlay, which
  covers (0, 0) to (100, 100) and asks to be detached on an outside click.
\<close>

theorem clickListener_never_detaches_witness:
  "well_formed_rect \<lparr>rect_left = 0, rect_right = 100, rect_top = 0, rect_bottom = 100\<rparr> \<and>
   \<not> isOutsideClick \<lparr>clientX = 500, clientY = 500\<rparr>
       \<lparr>rect_left = 0, rect_right = 100, rect_top = 0, rect_bottom = 100\<rparr> \<and>
   clickListener \<lparr>clientX = 500, clientY = 500\<rparr>
     [\<lparr>overlay_id = 1,
       overlay_rect = \<lparr>rect_left = 0, rect_right = 100, rect_top = 0, rect_bottom = 100\<rparr>,
       detachOnOutsideClick = True\<rparr>] = []"
proof -
  let ?r = "\<lparr>rect_left = 0, rect_right = 100, rect_top = 0, rect_bottom = 100\<rparr>"
  let ?ovs = "[\<lparr>overlay_id = 1, overlay_rect = ?r, detachOnOutsideClick = True\<rparr>]"
  have wf: "well_formed_rect ?r"
    by (simp add: well_formed_rect_def)
  then have h: "\<forall>ov\<in>set ?ovs. well_formed_rect (overlay_rect ov)"
    by simp
  from clickListener_never_detaches [OF h, of "\<lparr>clientX = 500, clientY = 500\<rparr>"] wf
  show ?thesis by simp
qed

section \<open>Properties of the progress bars\<close>

subsection \<open>Clamping\<close>

lemma math_min_100: "n \<noteq> NaN \<Longrightarrow> math_min (Finite 100) n \<noteq> NaN \<and> math_min (Finite 100) n \<noteq> PosInfinity"
  by (cases n) simp_all





subsection \<open>The setters keep both values in range\<close>















subsection \<open>Host attributes\<close>

text \<open>
  Claim C5.  In every state of either progress bar the host element has
  \<^verbatim>\<open>aria-valuemin\<close> 0 and \<^verbatim>\<open>aria-valuemax\<close> 100, its \<^verbatim>\<open>mode\<close> attribute is the
  mode, and \<^verbatim>\<open>aria-valuenow\<close> is the current value in the modes determinate and
  buffer and is absent in the modes indeterminate and query.
\<close>

theorem host_attributes_mirror_state:
  "attr_aria_valuemin (mat_host b) = ''0'' \<and>
   attr_aria_valuemax (mat_host b) = ''100'' \<and>
   attr_mode (mat_host b) = mode_string (pb_mode b) \<and>
   attr_aria_valuenow (mat_host b) =
     (case pb_mode b of
        Determinate \<Rightarrow> Some (pb_value b) | Buffer \<Rightarrow> Some (pb_value b)
      | Indeterminate \<Rightarrow> None | Query \<Rightarrow> None) \<and>
   attr_aria_valuemin (mdc_host c) = ''0'' \<and>
   attr_aria_valuemax (mdc_host c) = ''100'' \<and>
   attr_mode (mdc_host c) = mode_string (mdc_mode c) \<and>
   attr_aria_valuenow (mdc_host c) =
     (case mdc_mode c of
        Determinate \<Rightarrow> Some (mdc_value c) | Buffer \<Rightarrow> Some (mdc_value c)
      | Indeterminate \<Rightarrow> None | Query \<Rightarrow> None)"
  by (cases "pb_mode b"; cases "mdc_mode c") (simp_all add: mat_host_def mdc_host_def)

section \<open>Properties of the testbed harness environment\<close>




section \<open>Properties of the upgrade data\<close>

lemma getChangesForTarget_member:
  "c \<in> set (getChangesForTarget t d) \<longleftrightarrow>
     (\<exists>entries e. d t = Some entries \<and> e \<in> set entries \<and> c \<in> set (changes e))"
proof (cases "d t")
  case None
  then show ?thesis by (simp add: getChangesForTarget_def)
next
  case (Some entries)
  then show ?thesis by (auto simp: getChangesForTarget_def)
qed

text \<open>
  Claim C3.  \<^verbatim>\<open>getVersionUpgradeData\<close> asks for the rule's own target version in the
  table named by the data key, so it returns exactly the changes recorded under that
  version's key: for the \<^verbatim>\<open>classNames\<close> table the four replacements of version 6 and
  nothing for any other version.  \<^verbatim>\<open>ElementSelectorsRule\<close> is enabled exactly when
  the list it got is not empty.
\<close>

theorem getVersionUpgradeData_keyed_by_target:
  "getVersionUpgradeData r k
     = (case upgradeData r k (targetVersion r) of
          None \<Rightarrow> [] | Some entries \<Rightarrow> concat (map changes entries)) \<and>
   (c \<in> set (getVersionUpgradeData r k)) =
     (\<exists>entries e. upgradeData r k (targetVersion r) = Some entries \<and>
        e \<in> set entries \<and> c \<in> set (changes e)) \<and>
   getVersionUpgradeData \<lparr>targetVersion = t, upgradeData = (\<lambda>_. classNames)\<rparr> ClassNames
     = (if t = V6
        then [\<lparr>replace = ''ConnectedOverlayDirective'', replaceWith = ''CdkConnectedOverlay''\<rparr>,
              \<lparr>replace = ''OverlayOrigin'', replaceWith = ''CdkOverlayOrigin''\<rparr>,
              \<lparr>replace = ''ObserveContent'', replaceWith = ''CdkObserveContent''\<rparr>,
              \<lparr>replace = ''FocusTrapDirective'', replaceWith = ''CdkTrapFocus''\<rparr>]
        else []) \<and>
   rule_data (new_ElementSelectorsRule rule) = getVersionUpgradeData rule ElementSelectors \<and>
   ruleEnabled (new_ElementSelectorsRule rule)
     = (getVersionUpgradeData rule ElementSelectors \<noteq> [])"
proof -
  have "getVersionUpgradeData \<lparr>targetVersion = t, upgradeData = (\<lambda>_. classNames)\<rparr> ClassNames
     = (if t = V6
        then [\<lparr>replace = ''ConnectedOverlayDirective'', replaceWith = ''CdkConnectedOverlay''\<rparr>,
              \<lparr>replace = ''OverlayOrigin'', replaceWith = ''CdkOverlayOrigin''\<rparr>,
              \<lparr>replace = ''ObserveContent'', replaceWith = ''CdkObserveContent''\<rparr>,
              \<lparr>replace = ''FocusTrapDirective'', replaceWith = ''CdkTrapFocus''\<rparr>]
        else [])"
    by (cases t) (simp_all add: getVersionUpgradeData_def getChangesForTarget_def classNames_def)
  moreover have "(c \<in> set (getVersionUpgradeData r k)) =
     (\<exists>entries e. upgradeData r k (targetVersion r) = Some entries \<and>
        e \<in> set entries \<and> c \<in> set (changes e))"
    unfolding getVersionUpgradeData_def by (rule getChangesForTarget_member)
  ultimately show ?thesis
    by (simp add: getVersionUpgradeData_def getChangesForTarget_def
          new_ElementSelectorsRule_def Let_def)
qed

section \<open>Properties of the element selectors rule\<close>

lemma record_edit_fields:
  "fs_contents (record_edit p e fs) = fs_contents fs"
  "fs_recorders (record_edit p e fs) = (fs_recorders fs)(p := fs_recorders fs p @ [e])"
  by (simp_all add: record_edit_def)

lemma replaceSelector_fields:
  "fs_contents (replaceSelector p start d fs) = fs_contents fs"
  "fs_recorders (replaceSelector p start d fs) =
     (fs_recorders fs)(p := fs_recorders fs p @
        [Remove start (length (replace d)), InsertRight start (replaceWith d)])"
  by (simp_all add: replaceSelector_def recorder_insertRight_def recorder_remove_def
        record_edit_fields)

lemma fold_replaceSelector_fields:
  "fs_contents (fold (\<lambda>start. replaceSelector p start d) starts fs) = fs_contents fs \<and>
   fs_recorders (fold (\<lambda>start. replaceSelector p start d) starts fs) =
     (fs_recorders fs)(p := fs_recorders fs p @
        concat (map (\<lambda>start. [Remove start (length (replace d)),
                               InsertRight start (replaceWith d)]) starts))"
proof (induction starts arbitrary: fs)
  case Nil
  show ?case by simp
next
  case (Cons s starts)
  show ?case by (simp add: Cons.IH replaceSelector_fields fun_eq_iff)
qed

lemma fold_selectors_fields:
  "fs_contents
     (fold (\<lambda>selector. fold (\<lambda>start. replaceSelector p start selector)
                          (map (\<lambda>offset. start + offset) (findAll txt (replace selector))))
        selectors fs) = fs_contents fs \<and>
   fs_recorders
     (fold (\<lambda>selector. fold (\<lambda>start. replaceSelector p start selector)
                          (map (\<lambda>offset. start + offset) (findAll txt (replace selector))))
        selectors fs) =
     (fs_recorders fs)(p := fs_recorders fs p @ selector_edits findAll selectors txt start)"
proof (induction selectors arbitrary: fs)
  case Nil
  show ?case by (simp add: selector_edits_def)
next
  case (Cons d selectors)
  show ?case
    by (simp add: Cons.IH fold_replaceSelector_fields selector_edits_def comp_def fun_eq_iff)
qed

text \<open>
  Claim C8.  A visit of \<^verbatim>\<open>ElementSelectorsRule\<close> changes nothing but the update
  recorder of the visited file, to which it appends one removal and one right insertion
  per match.  The text of every file is as before, and so are the recorders of all other
  files; a node that is not a string literal, or whose parent is not a call, records
  nothing.
\<close>

theorem element_selectors_visits_only_record:
  "fs_contents (visitTemplate findAll this template fs) = fs_contents fs \<and>
   fs_recorders (visitTemplate findAll this template fs) =
     (fs_recorders fs)(res_filePath template := fs_recorders fs (res_filePath template) @
        selector_edits findAll (rule_data this) (res_content template) (res_start template)) \<and>
   fs_contents (visitStylesheet findAll this stylesheet fs) = fs_contents fs \<and>
   fs_recorders (visitStylesheet findAll this stylesheet fs) =
     (fs_recorders fs)(res_filePath stylesheet := fs_recorders fs (res_filePath stylesheet) @
        selector_edits findAll (rule_data this) (res_content stylesheet) (res_start stylesheet)) \<and>
   fs_contents (visitNode findAll this node fs) = fs_contents fs \<and>
   fs_recorders (visitNode findAll this node fs) =
     (if isStringLiteralLike node \<and> (parentKind node = None \<or> parentKind node = Some CallExpression)
      then (fs_recorders fs)(sourceFileName node := fs_recorders fs (sourceFileName node) @
              selector_edits findAll (rule_data this) (getText node) (getStart node))
      else fs_recorders fs)"
proof -
  have pk: "(case parentKind node of None \<Rightarrow> False | Some kind \<Rightarrow> kind \<noteq> CallExpression)
              = (\<not> (parentKind node = None \<or> parentKind node = Some CallExpression))"
    by (cases "parentKind node") auto
  show ?thesis
    unfolding visitTemplate_def visitStylesheet_def visitNode_def visitStringLiteralLike_def pk
    by (simp add: fold_selectors_fields Let_def)
qed

section \<open>Properties of the update project\<close>

subsection \<open>Traces\<close>

lemma visited_paths_append:
  "visited_paths host (xs @ ys) = visited_paths host xs @ visited_paths host ys"
  by (induction xs) (simp_all split: option.splits)

lemma checked_paths_append:
  "checked_paths host (xs @ ys) = checked_paths host xs @ checked_paths host ys"
  by (induction xs) (simp_all split: option.splits)

lemma calls_of_append: "calls_of (xs @ ys) = calls_of xs @ calls_of ys"
  by (induction xs rule: calls_of.induct) simp_all

lemma checked_subset_visited: "set (checked_paths host evs) \<subseteq> set (visited_paths host evs)"
  by (induction evs) (auto split: option.splits)

lemma checked_distinct: "distinct (visited_paths host evs) \<Longrightarrow> distinct (checked_paths host evs)"
proof (induction evs)
  case Nil
  show ?case by simp
next
  case (Cons e evs)
  show ?case
  proof (cases "visited_path host e")
    case None
    with Cons show ?thesis by simp
  next
    case (Some p)
    with Cons.prems have "p \<notin> set (visited_paths host evs)"
      and "distinct (visited_paths host evs)"
      by simp_all
    with Cons.IH Some checked_subset_visited [of host evs] show ?thesis
      by auto
  qed
qed

lemma inner_calls_no_paths:
  "list_all inner_call evs \<Longrightarrow>
     visited_paths host evs = [] \<and> checked_paths host evs = [] \<and> CommitEdits \<notin> set evs"
proof (induction evs)
  case Nil
  show ?case by simp
next
  case (Cons e evs)
  from Cons.prems have "inner_call e" and "list_all inner_call evs"
    by simp_all
  from \<open>inner_call e\<close> have "visited_path host e = None \<and> \<not> inline_visit e \<and> e \<noteq> CommitEdits"
    by (cases e rule: inner_call.cases) simp_all
  with Cons.IH [OF \<open>list_all inner_call evs\<close>] show ?case
    by auto
qed

lemma new_events_append: "trace st' = trace st @ evs \<Longrightarrow> new_events st st' = evs"
  by (simp add: new_events_def)

lemma visits_onceI:
  assumes "trace st' = trace st @ evs"
    and "distinct (checked_paths host evs)"
    and "set (checked_paths host evs) \<inter> analyzedFiles st = {}"
    and "analyzedFiles st' = analyzedFiles st \<union> set (visited_paths host evs)"
  shows "visits_once host st st'"
  using assms by (simp add: visits_once_def new_events_append)

lemma visits_once_refl: "visits_once host st st"
  by (rule visits_onceI [where evs = "[]"]) simp_all

lemma visits_once_trans:
  assumes a: "visits_once host st st'" and b: "visits_once host st' st''"
  shows "visits_once host st st''"
proof -
  let ?e = "new_events st st'" and ?f = "new_events st' st''"
  from a have a1: "trace st' = trace st @ ?e" and a2: "distinct (checked_paths host ?e)"
    and a3: "set (checked_paths host ?e) \<inter> analyzedFiles st = {}"
    and a4: "analyzedFiles st' = analyzedFiles st \<union> set (visited_paths host ?e)"
    by (simp_all add: visits_once_def)
  from b have b1: "trace st'' = trace st' @ ?f" and b2: "distinct (checked_paths host ?f)"
    and b3: "set (checked_paths host ?f) \<inter> analyzedFiles st' = {}"
    and b4: "analyzedFiles st'' = analyzedFiles st' \<union> set (visited_paths host ?f)"
    by (simp_all add: visits_once_def)
  have sub: "set (checked_paths host ?e) \<subseteq> analyzedFiles st'"
    using checked_subset_visited [of host ?e] a4 by auto
  show ?thesis
  proof (rule visits_onceI [where evs = "?e @ ?f"])
    show "trace st'' = trace st @ ?e @ ?f"
      using a1 b1 by simp
    show "distinct (checked_paths host (?e @ ?f))"
      using a2 b2 b3 sub by (auto simp: checked_paths_append)
    show "set (checked_paths host (?e @ ?f)) \<inter> analyzedFiles st = {}"
      using a3 b3 a4 by (auto simp: checked_paths_append)
    show "analyzedFiles st'' = analyzedFiles st \<union> set (visited_paths host (?e @ ?f))"
      using a4 b4 by (auto simp: visited_paths_append)
  qed
qed




lemma inner_walkI:
  assumes "trace st' = trace st @ evs" and "list_all inner_call evs"
    and "analyzedFiles st' = analyzedFiles st" and "logger st' = logger st"
    and "fs_contents (fileSystem st') = fs_contents (fileSystem st)"
  shows "inner_walk st st'"
  using assms by (simp add: inner_walk_def new_events_append)

lemma inner_walk_refl: "inner_walk st st"
  by (rule inner_walkI [where evs = "[]"]) simp_all

lemma inner_walk_trans:
  assumes a: "inner_walk st st'" and b: "inner_walk st' st''"
  shows "inner_walk st st''"
proof (rule inner_walkI [where evs = "new_events st st' @ new_events st' st''"])
  show "trace st'' = trace st @ new_events st st' @ new_events st' st''"
    using a b by (simp add: inner_walk_def)
  show "list_all inner_call (new_events st st' @ new_events st' st'')"
    using a b by (simp add: inner_walk_def)
  show "analyzedFiles st'' = analyzedFiles st" and "logger st'' = logger st"
    and "fs_contents (fileSystem st'') = fs_contents (fileSystem st)"
    using a b by (simp_all add: inner_walk_def)
qed

subsection \<open>The migrations only record\<close>

lemma record_edits_contents: "fs_contents (record_edits es fs) = fs_contents fs"
  unfolding record_edits_def
  by (induction es arbitrary: fs) (simp_all add: record_edit_fields split: prod.splits)

lemma forEachMigration_contents:
  "forEachMigration method ms fs = (ms', fs') \<Longrightarrow> fs_contents fs' = fs_contents fs"
proof (induction ms arbitrary: fs ms' fs')
  case Nil
  then show ?case by simp
next
  case (Cons m ms)
  obtain m1 es where m: "method fs m = (m1, es)"
    by (cases "method fs m")
  obtain ms1 fs1 where r: "forEachMigration method ms (record_edits es fs) = (ms1, fs1)"
    by (cases "forEachMigration method ms (record_edits es fs)")
  from Cons.prems m r have "fs' = fs1"
    by simp
  moreover from Cons.IH [OF r] have "fs_contents fs1 = fs_contents fs"
    by (simp add: record_edits_contents)
  ultimately show ?case by simp
qed

lemma visitInMigrations_fields:
  "analyzedFiles (shared (visitInMigrations api call run)) = analyzedFiles (shared run)"
  "trace (shared (visitInMigrations api call run)) = trace (shared run) @ [Called call]"
  "logger (shared (visitInMigrations api call run)) = logger (shared run)"
  "fs_contents (fileSystem (shared (visitInMigrations api call run)))
     = fs_contents (fileSystem (shared run))"
  "resolvedTemplates (visitInMigrations api call run) = resolvedTemplates run"
  "resolvedStylesheets (visitInMigrations api call run) = resolvedStylesheets run"
proof -
  obtain ms fs where
    r: "forEachMigration (call_method api call) (migrations run) (fileSystem (shared run))
          = (ms, fs)"
    by (cases "forEachMigration (call_method api call) (migrations run) (fileSystem (shared run))")
  have v: "visitInMigrations api call run
             = run\<lparr>shared := (shared run)\<lparr>fileSystem := fs,
                                         trace := trace (shared run) @ [Called call]\<rparr>,
                   migrations := ms\<rparr>"
    by (simp add: visitInMigrations_def r)
  show "analyzedFiles (shared (visitInMigrations api call run)) = analyzedFiles (shared run)"
    and "trace (shared (visitInMigrations api call run)) = trace (shared run) @ [Called call]"
    and "logger (shared (visitInMigrations api call run)) = logger (shared run)"
    and "resolvedTemplates (visitInMigrations api call run) = resolvedTemplates run"
    and "resolvedStylesheets (visitInMigrations api call run) = resolvedStylesheets run"
    by (simp_all add: v)
  show "fs_contents (fileSystem (shared (visitInMigrations api call run)))
          = fs_contents (fileSystem (shared run))"
    using forEachMigration_contents [OF r] by (simp add: v)
qed

lemma collector_visitNode_fields:
  "shared (collector_visitNode host node run) = shared run"
  "migrations (collector_visitNode host node run) = migrations run"
  by (simp_all add: collector_visitNode_def split: prod.splits)

lemma addAnalyzed_fields:
  "analyzedFiles (shared (addAnalyzed p run)) = insert p (analyzedFiles (shared run))"
  "trace (shared (addAnalyzed p run)) = trace (shared run)"
  "logger (shared (addAnalyzed p run)) = logger (shared run)"
  "fileSystem (shared (addAnalyzed p run)) = fileSystem (shared run)"
  "migrations (addAnalyzed p run) = migrations run"
  "resolvedTemplates (addAnalyzed p run) = resolvedTemplates run"
  "resolvedStylesheets (addAnalyzed p run) = resolvedStylesheets run"
  by (simp_all add: addAnalyzed_def)

subsection \<open>The walk of a syntax tree\<close>

lemma fold_shared_rel:
  assumes refl: "\<And>s. R s s"
    and trans: "\<And>a b c. R a b \<Longrightarrow> R b c \<Longrightarrow> R a c"
    and step: "\<And>x run. x \<in> set xs \<Longrightarrow> R (shared run) (shared (f x run))"
  shows "R (shared run) (shared (fold f xs run))"
  using step
proof (induction xs arbitrary: run)
  case Nil
  show ?case by (simp add: refl)
next
  case (Cons x xs)
  have "R (shared run) (shared (f x run))"
    by (rule Cons.prems) simp
  moreover have "R (shared (f x run)) (shared (fold f xs (f x run)))"
    by (rule Cons.IH) (simp add: Cons.prems)
  ultimately have "R (shared run) (shared (fold f xs (f x run)))"
    by (rule trans)
  then show ?case by simp
qed

text \<open>
  The walk of a node enters the call for the node itself and then only calls for nodes
  below it; it leaves the analyzed files, the logger and the texts as they were.
\<close>

lemma visitNodeAndCollectResources_walk:
  "\<exists>evs. trace (shared (visitNodeAndCollectResources api host node run))
            = trace (shared run) @ Called (VisitNode node) # evs \<and>
         list_all inner_call evs \<and>
         analyzedFiles (shared (visitNodeAndCollectResources api host node run))
            = analyzedFiles (shared run) \<and>
         logger (shared (visitNodeAndCollectResources api host node run)) = logger (shared run) \<and>
         fs_contents (fileSystem (shared (visitNodeAndCollectResources api host node run)))
            = fs_contents (fileSystem (shared run))"
proof (induction api host node run rule: visitNodeAndCollectResources.induct)
  case (1 api host node run)
  let ?run1 = "visitInMigrations api (VisitNode node) run"
  let ?walk = "\<lambda>child. visitNodeAndCollectResources api host (Node child)"
  let ?run2 = "fold ?walk (forEachChild node) ?run1"
  have "inner_walk (shared ?run1) (shared ?run2)"
  proof (rule fold_shared_rel [where R = inner_walk])
    fix child r
    assume "child \<in> set (forEachChild node)"
    from "1.IH" [OF this, of r]
    obtain evs where
      "trace (shared (?walk child r)) = trace (shared r) @ Called (VisitNode (Node child)) # evs"
      and "list_all inner_call evs"
      and "analyzedFiles (shared (?walk child r)) = analyzedFiles (shared r)"
      and "logger (shared (?walk child r)) = logger (shared r)"
      and "fs_contents (fileSystem (shared (?walk child r))) = fs_contents (fileSystem (shared r))"
      by blast
    then show "inner_walk (shared r) (shared (?walk child r))"
      by (intro inner_walkI [where evs = "Called (VisitNode (Node child)) # evs"]) simp_all
  qed (rule inner_walk_refl, erule (1) inner_walk_trans)
  then have "trace (shared ?run2) = trace (shared ?run1) @ new_events (shared ?run1) (shared ?run2)"
    and "list_all inner_call (new_events (shared ?run1) (shared ?run2))"
    and "analyzedFiles (shared ?run2) = analyzedFiles (shared ?run1)"
    and "logger (shared ?run2) = logger (shared ?run1)"
    and "fs_contents (fileSystem (shared ?run2)) = fs_contents (fileSystem (shared ?run1))"
    by (simp_all add: inner_walk_def)
  moreover have "visitNodeAndCollectResources api host node run
                   = collector_visitNode host node ?run2"
    by (subst visitNodeAndCollectResources.simps) simp
  ultimately show ?case
    by (intro exI [where x = "new_events (shared ?run1) (shared ?run2)"])
       (simp add: collector_visitNode_fields visitInMigrations_fields)
qed


lemma visitNodeAndCollectResources_logger:
  "logger (shared (visitNodeAndCollectResources api host node run)) = logger (shared run)"
  using visitNodeAndCollectResources_walk [of api host node run] by blast

subsection \<open>One step of each pass\<close>

text \<open>
  A step that calls the migrations for one file, by the events \<^verbatim>\<open>evs\<close>, and then
  adds the path of the file to the analyzed files.
\<close>

lemma visits_once_step:
  assumes tr: "trace (shared run') = trace st @ evs"
    and an: "analyzedFiles (shared run') = analyzedFiles st"
    and vp: "visited_paths host evs = [p]"
    and chk: "checked_paths host evs = [] \<or> p \<notin> analyzedFiles st"
  shows "visits_once host st (shared (addAnalyzed p run'))"
proof (rule visits_onceI [where evs = evs])
  show "trace (shared (addAnalyzed p run')) = trace st @ evs"
    by (simp add: addAnalyzed_fields tr)
  have "distinct (visited_paths host evs)"
    by (simp add: vp)
  then show "distinct (checked_paths host evs)"
    by (rule checked_distinct)
  have "set (checked_paths host evs) \<subseteq> {p}"
    using checked_subset_visited [of host evs] by (simp add: vp)
  with chk show "set (checked_paths host evs) \<inter> analyzedFiles st = {}"
    by auto
  show "analyzedFiles (shared (addAnalyzed p run')) = analyzedFiles st \<union> set (visited_paths host evs)"
    by (simp add: addAnalyzed_fields an vp)
qed

lemma visitSourceFile_once:
  "visits_once host (shared run) (shared (visitSourceFile api host sourceFile run))"
proof (cases "resolve host (sf_fileName sourceFile) \<in> analyzedFiles (shared run)")
  case True
  then show ?thesis
    by (simp add: visitSourceFile_def Let_def visits_once_refl)
next
  case False
  let ?run' = "visitNodeAndCollectResources api host (SourceFile sourceFile) run"
  from visitNodeAndCollectResources_walk [of api host "SourceFile sourceFile" run]
  obtain evs where
    t: "trace (shared ?run') = trace (shared run) @ Called (VisitNode (SourceFile sourceFile)) # evs"
    and i: "list_all inner_call evs"
    and a: "analyzedFiles (shared ?run') = analyzedFiles (shared run)"
    by blast
  from i have n: "visited_paths host evs = []"
    by (simp add: inner_calls_no_paths)
  have "visits_once host (shared run)
          (shared (addAnalyzed (resolve host (sf_fileName sourceFile)) ?run'))"
    by (rule visits_once_step [OF t a]) (simp_all add: n False)
  with False show ?thesis
    by (simp add: visitSourceFile_def Let_def)
qed

lemma visitResolvedTemplate_once:
  "visits_once host (shared run) (shared (visitResolvedTemplate api host template run))"
proof (cases "res_inline template \<or> resolve host (res_filePath template) \<notin> analyzedFiles (shared run)")
  case False
  then show ?thesis
    by (simp add: visitResolvedTemplate_def Let_def visits_once_refl)
next
  case True
  let ?run' = "visitInMigrations api (VisitTemplate template) run"
  have "visits_once host (shared run)
          (shared (addAnalyzed (resolve host (res_filePath template)) ?run'))"
    by (rule visits_once_step [where evs = "[Called (VisitTemplate template)]"])
       (use True in \<open>auto simp: visitInMigrations_fields\<close>)
  then show ?thesis
    by (simp only: visitResolvedTemplate_def Let_def if_P [OF True])
qed

lemma visitResolvedStylesheet_once:
  "visits_once host (shared run) (shared (visitResolvedStylesheet api host stylesheet run))"
proof (cases "res_inline stylesheet \<or> resolve host (res_filePath stylesheet) \<notin> analyzedFiles (shared run)")
  case False
  then show ?thesis
    by (simp add: visitResolvedStylesheet_def Let_def visits_once_refl)
next
  case True
  let ?run' = "visitInMigrations api (VisitStylesheet stylesheet) run"
  have "visits_once host (shared run)
          (shared (addAnalyzed (resolve host (res_filePath stylesheet)) ?run'))"
    by (rule visits_once_step [where evs = "[Called (VisitStylesheet stylesheet)]"])
       (use True in \<open>auto simp: visitInMigrations_fields\<close>)
  then show ?thesis
    by (simp only: visitResolvedStylesheet_def Let_def if_P [OF True])
qed

lemma visitExternalStylesheet_once:
  assumes "res_filePath stylesheet = filePath" and "\<not> res_inline stylesheet"
  shows "visits_once host (shared run)
           (shared (visitExternalStylesheet api host filePath stylesheet run))"
proof (cases "resolve host filePath \<in> analyzedFiles (shared run)")
  case True
  then show ?thesis
    by (simp add: visitExternalStylesheet_def Let_def visits_once_refl)
next
  case False
  let ?run' = "visitInMigrations api (VisitStylesheet stylesheet) run"
  have "visits_once host (shared run) (shared (addAnalyzed (resolve host filePath) ?run'))"
    by (rule visits_once_step [where evs = "[Called (VisitStylesheet stylesheet)]"])
       (use False assms in \<open>auto simp: visitInMigrations_fields\<close>)
  with False show ?thesis
    by (simp add: visitExternalStylesheet_def Let_def)
qed







lemma visitSourceFile_logger:
  "logger (shared (visitSourceFile api host sourceFile run)) = logger (shared run)"
  by (simp add: visitSourceFile_def Let_def addAnalyzed_fields visitNodeAndCollectResources_logger)

lemma visitResolvedTemplate_logger:
  "logger (shared (visitResolvedTemplate api host template run)) = logger (shared run)"
  by (simp add: visitResolvedTemplate_def Let_def addAnalyzed_fields visitInMigrations_fields)

lemma visitResolvedStylesheet_logger:
  "logger (shared (visitResolvedStylesheet api host stylesheet run)) = logger (shared run)"
  by (simp add: visitResolvedStylesheet_def Let_def addAnalyzed_fields visitInMigrations_fields)

lemma visitExternalStylesheet_logger:
  "logger (shared (visitExternalStylesheet api host filePath stylesheet run)) = logger (shared run)"
  by (simp add: visitExternalStylesheet_def Let_def addAnalyzed_fields visitInMigrations_fields)

subsection \<open>Whole passes\<close>

lemma fold_state_rel:
  assumes refl: "\<And>s. R s s"
    and trans: "\<And>a b c. R a b \<Longrightarrow> R b c \<Longrightarrow> R a c"
    and step: "\<And>x s. R s (f x s)"
  shows "R (s::tool_state) (fold f xs s)"
proof (induction xs arbitrary: s)
  case Nil
  show ?case by (simp add: refl)
next
  case (Cons x xs)
  have "R s (f x s)"
    by (rule step)
  then have "R s (fold f xs (f x s))"
    using Cons.IH by (rule trans)
  then show ?case by simp
qed

text \<open>The loop over the additional stylesheets, up to the first that cannot be read.\<close>

lemma reading_shared_rel:
  assumes refl: "\<And>s. R s s"
    and trans: "\<And>a b c. R a b \<Longrightarrow> R b c \<Longrightarrow> R a c"
    and step: "\<And>p s run. reader (fileSystem (shared run)) p = Inr s \<Longrightarrow>
                 R (shared run) (shared (visitExternalStylesheet api host p s run))"
  shows "R (shared run)
           (shared (snd (visitAdditionalStylesheets_reading api host reader paths run)))"
proof (induction paths arbitrary: run)
  case Nil
  show ?case by (simp add: refl)
next
  case (Cons p paths)
  show ?case
  proof (cases "reader (fileSystem (shared run)) p")
    case (Inl e)
    then show ?thesis by (simp add: refl)
  next
    case (Inr s)
    let ?run' = "visitExternalStylesheet api host p s run"
    have "R (shared run) (shared ?run')"
      using Inr by (rule step)
    then have "R (shared run)
                 (shared (snd (visitAdditionalStylesheets_reading api host reader paths ?run')))"
      using Cons.IH by (rule trans)
    with Inr show ?thesis by simp
  qed
qed

lemma reading_once:
  assumes "reads_external reader"
  shows "visits_once host (shared run)
           (shared (snd (visitAdditionalStylesheets_reading api host reader paths run)))"
proof (rule reading_shared_rel [where R = "visits_once host"])
  fix p s and r :: "'a migration_run"
  assume "reader (fileSystem (shared r)) p = Inr s"
  with assms have "res_filePath s = p" and "\<not> res_inline s"
    by (auto simp: reads_external_def)
  then show "visits_once host (shared r) (shared (visitExternalStylesheet api host p s r))"
    by (rule visitExternalStylesheet_once)
qed (rule visits_once_refl, erule (1) visits_once_trans)


lemma reading_logger:
  "logger (shared (snd (visitAdditionalStylesheets_reading api host reader paths run)))
     = logger (shared run)"
  by (rule reading_shared_rel [where R = "\<lambda>a b. logger b = logger a"])
     (simp_all add: visitExternalStylesheet_logger)



lemma visitComponents_once:
  "visits_once host st (shared (visitComponents api host ctx prog types target data st))"
proof -
  let ?run0 = "\<lparr>shared = st,
                migrations = createMigrations api ctx prog (fileSystem st) types target data,
                resolvedTemplates = [], resolvedStylesheets = []\<rparr>"
  let ?files = "filter (\<lambda>f. \<not> sf_isDeclarationFile f \<and> \<not> sf_isFromExternalLibrary f)
                  (getSourceFiles prog)"
  let ?run1 = "fold (visitSourceFile api host) ?files ?run0"
  let ?run2 = "fold (visitResolvedTemplate api host) (resolvedTemplates ?run1) ?run1"
  let ?run3 = "fold (visitResolvedStylesheet api host) (resolvedStylesheets ?run2) ?run2"
  have "visits_once host (shared ?run0) (shared ?run1)"
    by (rule fold_shared_rel [where R = "visits_once host"])
       (rule visits_once_refl, erule (1) visits_once_trans, rule visitSourceFile_once)
  moreover have "visits_once host (shared ?run1) (shared ?run2)"
    by (rule fold_shared_rel [where R = "visits_once host"])
       (rule visits_once_refl, erule (1) visits_once_trans, rule visitResolvedTemplate_once)
  moreover have "visits_once host (shared ?run2) (shared ?run3)"
    by (rule fold_shared_rel [where R = "visits_once host"])
       (rule visits_once_refl, erule (1) visits_once_trans, rule visitResolvedStylesheet_once)
  ultimately have "visits_once host (shared ?run0) (shared ?run3)"
    by (blast intro: visits_once_trans)
  then show ?thesis
    by (simp add: visitComponents_def Let_def)
qed


lemma fold_logger:
  assumes "\<And>x run. logger (shared (f x run)) = logger (shared run)"
  shows "logger (shared (fold f xs run)) = logger (shared run)"
  by (induction xs arbitrary: run) (simp_all add: assms)

lemma visitComponents_logger:
  "logger (shared (visitComponents api host ctx prog types target data st)) = logger st"
  by (simp add: visitComponents_def Let_def
        fold_logger [where f = "visitSourceFile api host", OF visitSourceFile_logger]
        fold_logger [where f = "visitResolvedTemplate api host", OF visitResolvedTemplate_logger]
        fold_logger [where f = "visitResolvedStylesheet api host",
          OF visitResolvedStylesheet_logger])

subsection \<open>Failures and warnings\<close>

lemma foldl_append_concat: "foldl (\<lambda>res m. res @ f m) acc ms = acc @ concat (map f ms)"
  by (induction ms arbitrary: acc) simp_all

lemma collectFailures_concat: "collectFailures api ms = concat (map (m_failures api) ms)"
  by (simp add: collectFailures_def foldl_append_concat)

lemma warnFailures_fields:
  "analyzedFiles (warnFailures host failures st) = analyzedFiles st"
  "trace (warnFailures host failures st) = trace st"
  "fileSystem (warnFailures host failures st) = fileSystem st"
  "logger (warnFailures host failures st)
     = logger st @ map (\<lambda>f. LogWarn (failure_warning host f)) failures"
  unfolding warnFailures_def
  by (induction failures arbitrary: st) simp_all

lemma reportFailures_fields:
  "analyzedFiles (fst (reportFailures api host run)) = analyzedFiles (shared run)"
  "trace (fst (reportFailures api host run)) = trace (shared run) @ [Called PostAnalysis]"
  "fs_contents (fileSystem (fst (reportFailures api host run)))
     = fs_contents (fileSystem (shared run))"
  by (simp_all add: reportFailures_def Let_def warnFailures_fields visitInMigrations_fields)

lemma reportFailures_result:
  "snd (reportFailures api host run)
     = \<lparr>hasFailures =
          (collectFailures api (migrations (visitInMigrations api PostAnalysis run)) \<noteq> [])\<rparr>"
  "logger (fst (reportFailures api host run))
     = logger (shared run) @
       map (\<lambda>f. LogWarn (failure_warning host f))
         (collectFailures api (migrations (visitInMigrations api PostAnalysis run)))"
  by (simp_all add: reportFailures_def Let_def warnFailures_fields visitInMigrations_fields)

lemma reportFailures_once: "visits_once host (shared run) (fst (reportFailures api host run))"
  by (rule visits_onceI [where evs = "[Called PostAnalysis]"])
     (simp_all add: reportFailures_fields)


subsection \<open>\<^verbatim>\<open>migrate\<close> as a whole\<close>

lemma migrate_Some:
  "migrate api host ctx prog types target data (Some paths) st =
     (fst (reportFailures api host
             (fold (visitAdditionalStylesheet api host) paths
                (visitComponents api host ctx prog types target data st))),
      Inr (snd (reportFailures api host
             (fold (visitAdditionalStylesheet api host) paths
                (visitComponents api host ctx prog types target data st)))))"
  by (simp add: migrate_def Let_def split: prod.splits)

lemma migrate_None:
  "migrate api host ctx prog types target data None st =
     (shared (visitComponents api host ctx prog types target data st), Inl TypeError)"
  by (simp add: migrate_def Let_def)

lemma migrate_reading_None:
  "migrate_reading api host reader ctx prog types target data None st =
     (shared (visitComponents api host ctx prog types target data st), Inl TypeError)"
  by (simp add: migrate_reading_def Let_def)

text \<open>
  With a list of paths: if the loop over them stops at a path that cannot be read, the
  call ends there with the error of the read; if not, the failures are reported.
\<close>

lemma migrate_reading_Some:
  "migrate_reading api host reader ctx prog types target data (Some paths) st =
     (case visitAdditionalStylesheets_reading api host reader paths
             (visitComponents api host ctx prog types target data st) of
        (Some e, run') \<Rightarrow> (shared run', Inl e)
      | (None, run') \<Rightarrow>
          (fst (reportFailures api host run'), Inr (snd (reportFailures api host run'))))"
  by (simp add: migrate_reading_def Let_def split: prod.splits option.splits)

lemma migrate_reading_rel:
  assumes trans: "\<And>a b c. R a b \<Longrightarrow> R b c \<Longrightarrow> R a c"
    and components: "R st (shared (visitComponents api host ctx prog types target data st))"
    and reading: "\<And>paths run.
       R (shared run) (shared (snd (visitAdditionalStylesheets_reading api host reader paths run)))"
    and report: "\<And>run. R (shared run) (fst (reportFailures api host run))"
  shows "R st (fst (migrate_reading api host reader ctx prog types target data additional st))"
proof (cases additional)
  case None
  with components show ?thesis by (simp add: migrate_reading_None)
next
  case (Some paths)
  let ?run = "visitComponents api host ctx prog types target data st"
  obtain err run' where r: "visitAdditionalStylesheets_reading api host reader paths ?run = (err, run')"
    by (cases "visitAdditionalStylesheets_reading api host reader paths ?run")
  from reading [of ?run paths] r have "R (shared ?run) (shared run')"
    by simp
  with components have c: "R st (shared run')"
    by (rule trans)
  show ?thesis
  proof (cases err)
    case None
    from c report [of run'] have "R st (fst (reportFailures api host run'))"
      by (rule trans)
    with Some r None show ?thesis by (simp add: migrate_reading_Some)
  next
    case (Some e)
    with \<open>additional = Some paths\<close> r c show ?thesis by (simp add: migrate_reading_Some)
  qed
qed

lemma migrate_reading_once:
  assumes "reads_external reader"
  shows "visits_once host st
           (fst (migrate_reading api host reader ctx prog types target data additional st))"
  by (rule migrate_reading_rel [where R = "visits_once host"])
     (erule (1) visits_once_trans, rule visitComponents_once, rule reading_once [OF assms],
      rule reportFailures_once)



lemma migrate_all_once:
  assumes "reads_external reader"
  shows "visits_once host st (migrate_all api host reader calls st)"
  unfolding migrate_all_def
  by (rule fold_state_rel [where R = "visits_once host"])
     (rule visits_once_refl, erule (1) visits_once_trans,
      simp add: migrate_call_def migrate_reading_once [OF assms])

lemma distinct_count_le_1: "distinct xs \<Longrightarrow> count_list xs x \<le> 1"
  by (induction xs) auto

subsection \<open>What reaches a migration\<close>

lemma call_method_recording: "call_method recording_api call fs m = (m @ [call], [])"
  by (cases call) (simp_all add: recording_api_def)

lemma keeps_callsI:
  assumes "trace (shared run) = T @ evs" and "migrations run = [calls_of evs]"
  shows "keeps_calls T run"
  using assms by (simp add: keeps_calls_def)

lemma keeps_callsD:
  assumes "keeps_calls T run"
  shows "trace (shared run) = T @ drop (length T) (trace (shared run))"
    and "migrations run = [calls_of (drop (length T) (trace (shared run)))]"
proof -
  from assms have "take (length T) (trace (shared run)) = T"
    by (simp add: keeps_calls_def)
  then have "take (length T) (trace (shared run)) @ drop (length T) (trace (shared run))
               = T @ drop (length T) (trace (shared run))"
    by simp
  then show "trace (shared run) = T @ drop (length T) (trace (shared run))"
    by simp
  from assms show "migrations run = [calls_of (drop (length T) (trace (shared run)))]"
    by (simp add: keeps_calls_def)
qed

text \<open>
  A migration whose methods keep the call they are made by and record no edit.
\<close>

lemma visitInMigrations_keeps:
  assumes rec: "\<And>call fs m. call_method api call fs m = (m @ [call], [])"
    and "keeps_calls T run"
  shows "keeps_calls T (visitInMigrations api call run)"
proof -
  let ?evs = "drop (length T) (trace (shared run))"
  from keeps_callsD [OF assms(2)]
  have t: "trace (shared run) = T @ ?evs" and m: "migrations run = [calls_of ?evs]"
    by simp_all
  have "migrations (visitInMigrations api call run) = [calls_of ?evs @ [call]]"
    by (simp add: visitInMigrations_def m rec record_edits_def)
  moreover have "trace (shared (visitInMigrations api call run)) = T @ (?evs @ [Called call])"
    using t by (simp add: visitInMigrations_fields)
  ultimately show ?thesis
    by (intro keeps_callsI [where evs = "?evs @ [Called call]"])
       (simp_all add: calls_of_append)
qed

lemma keeps_calls_cong:
  assumes "keeps_calls T run" and "trace (shared run') = trace (shared run)"
    and "migrations run' = migrations run"
  shows "keeps_calls T run'"
  using assms by (simp add: keeps_calls_def)

lemma addAnalyzed_keeps: "keeps_calls T run \<Longrightarrow> keeps_calls T (addAnalyzed p run)"
  by (erule keeps_calls_cong) (simp_all add: addAnalyzed_fields)

lemma collector_visitNode_keeps:
  "keeps_calls T run \<Longrightarrow> keeps_calls T (collector_visitNode host node run)"
  by (erule keeps_calls_cong) (simp_all add: collector_visitNode_fields)

lemma fold_inv:
  assumes step: "\<And>x s. x \<in> set xs \<Longrightarrow> P s \<Longrightarrow> P (f x s)" and "P s"
  shows "P (fold f xs s)"
  using assms
proof (induction xs arbitrary: s)
  case Nil
  then show ?case by simp
next
  case (Cons x xs)
  have "P (f x s)"
    by (rule Cons.prems(1)) (simp_all add: Cons.prems(2))
  then have "P (fold f xs (f x s))"
    by (intro Cons.IH) (simp_all add: Cons.prems(1))
  then show ?case by simp
qed

lemma visitNodeAndCollectResources_keeps_all:
  assumes "\<forall>call fs m. call_method api call fs m = (m @ [call], [])"
    and "keeps_calls T run"
  shows "keeps_calls T (visitNodeAndCollectResources api host node run)"
  using assms
proof (induction api host node run rule: visitNodeAndCollectResources.induct)
  case (1 api host node run)
  let ?walk = "\<lambda>child. visitNodeAndCollectResources api host (Node child)"
  let ?run1 = "visitInMigrations api (VisitNode node) run"
  have rec: "\<forall>call fs m. call_method api call fs m = (m @ [call], [])"
    by (rule "1.prems"(1))
  have k1: "keeps_calls T ?run1"
    by (rule visitInMigrations_keeps) (simp_all add: rec "1.prems"(2))
  have "keeps_calls T (fold ?walk (forEachChild node) ?run1)"
  proof (rule fold_inv [where P = "keeps_calls T"])
    fix child r
    assume "child \<in> set (forEachChild node)" and "keeps_calls T r"
    then show "keeps_calls T (?walk child r)"
      using rec by (simp add: "1.IH")
  qed (rule k1)
  then have "keeps_calls T (collector_visitNode host node (fold ?walk (forEachChild node) ?run1))"
    by (rule collector_visitNode_keeps)
  then show ?case
    by (subst visitNodeAndCollectResources.simps) simp
qed

lemma visitNodeAndCollectResources_keeps:
  assumes "\<And>call fs m. call_method api call fs m = (m @ [call], [])"
  shows "keeps_calls T run \<Longrightarrow> keeps_calls T (visitNodeAndCollectResources api host node run)"
  by (rule visitNodeAndCollectResources_keeps_all) (simp_all add: assms)

lemma visitSourceFile_keeps:
  assumes "\<And>call fs m. call_method api call fs m = (m @ [call], [])"
  shows "keeps_calls T run \<Longrightarrow> keeps_calls T (visitSourceFile api host sourceFile run)"
  by (simp add: visitSourceFile_def Let_def addAnalyzed_keeps
        visitNodeAndCollectResources_keeps [OF assms])

lemma visitResolvedTemplate_keeps:
  assumes "\<And>call fs m. call_method api call fs m = (m @ [call], [])"
  shows "keeps_calls T run \<Longrightarrow> keeps_calls T (visitResolvedTemplate api host template run)"
  by (simp add: visitResolvedTemplate_def Let_def addAnalyzed_keeps
        visitInMigrations_keeps [OF assms])

lemma visitResolvedStylesheet_keeps:
  assumes "\<And>call fs m. call_method api call fs m = (m @ [call], [])"
  shows "keeps_calls T run \<Longrightarrow> keeps_calls T (visitResolvedStylesheet api host stylesheet run)"
  by (simp add: visitResolvedStylesheet_def Let_def addAnalyzed_keeps
        visitInMigrations_keeps [OF assms])

lemma visitExternalStylesheet_keeps:
  assumes "\<And>call fs m. call_method api call fs m = (m @ [call], [])"
  shows "keeps_calls T run \<Longrightarrow>
           keeps_calls T (visitExternalStylesheet api host filePath stylesheet run)"
  by (simp add: visitExternalStylesheet_def Let_def addAnalyzed_keeps
        visitInMigrations_keeps [OF assms])

lemma reading_keeps:
  assumes rec: "\<And>call fs m. call_method api call fs m = (m @ [call], [])"
  shows "keeps_calls T run \<Longrightarrow>
           keeps_calls T (snd (visitAdditionalStylesheets_reading api host reader paths run))"
proof (induction paths arbitrary: run)
  case Nil
  then show ?case by simp
next
  case (Cons p paths)
  show ?case
  proof (cases "reader (fileSystem (shared run)) p")
    case (Inl e)
    with Cons.prems show ?thesis by simp
  next
    case (Inr s)
    have "keeps_calls T (visitExternalStylesheet api host p s run)"
      using Cons.prems by (rule visitExternalStylesheet_keeps [OF rec])
    from Cons.IH [OF this] Inr show ?thesis by simp
  qed
qed

lemma visitComponents_keeps:
  assumes rec: "\<And>call fs m. call_method api call fs m = (m @ [call], [])"
    and mk: "createMigrations api ctx prog (fileSystem st) types target data = [[]]"
  shows "keeps_calls (trace st) (visitComponents api host ctx prog types target data st)"
proof -
  let ?run0 = "\<lparr>shared = st,
                migrations = createMigrations api ctx prog (fileSystem st) types target data,
                resolvedTemplates = [], resolvedStylesheets = []\<rparr>"
  let ?files = "filter (\<lambda>f. \<not> sf_isDeclarationFile f \<and> \<not> sf_isFromExternalLibrary f)
                  (getSourceFiles prog)"
  let ?run1 = "fold (visitSourceFile api host) ?files ?run0"
  let ?run2 = "fold (visitResolvedTemplate api host) (resolvedTemplates ?run1) ?run1"
  let ?run3 = "fold (visitResolvedStylesheet api host) (resolvedStylesheets ?run2) ?run2"
  have k0: "keeps_calls (trace st) ?run0"
    by (rule keeps_callsI [where evs = "[]"]) (simp_all add: mk)
  have k1: "keeps_calls (trace st) ?run1"
    by (rule fold_inv [where P = "keeps_calls (trace st)"],
        rule visitSourceFile_keeps [OF rec], assumption, rule k0)
  have k2: "keeps_calls (trace st) ?run2"
    by (rule fold_inv [where P = "keeps_calls (trace st)"],
        rule visitResolvedTemplate_keeps [OF rec], assumption, rule k1)
  have "keeps_calls (trace st) ?run3"
    by (rule fold_inv [where P = "keeps_calls (trace st)"],
        rule visitResolvedStylesheet_keeps [OF rec], assumption, rule k2)
  then show ?thesis
    by (simp add: visitComponents_def Let_def)
qed

lemma final_run_keeps:
  assumes rec: "\<And>call fs m. call_method api call fs m = (m @ [call], [])"
    and mk: "createMigrations api ctx prog (fileSystem st) types target data = [[]]"
  shows "keeps_calls (trace st)
           (final_run api host reader ctx prog types target data additional st)"
proof (cases additional)
  case None
  then show ?thesis
    by (simp add: final_run_def Let_def visitComponents_keeps [OF rec mk])
next
  case (Some paths)
  let ?run = "visitComponents api host ctx prog types target data st"
  obtain err run' where
    r: "visitAdditionalStylesheets_reading api host reader paths ?run = (err, run')"
    by (cases "visitAdditionalStylesheets_reading api host reader paths ?run")
  have "keeps_calls (trace st) ?run"
    by (rule visitComponents_keeps [OF rec mk])
  then have "keeps_calls (trace st)
               (snd (visitAdditionalStylesheets_reading api host reader paths ?run))"
    by (rule reading_keeps [OF rec])
  with r have k: "keeps_calls (trace st) run'"
    by simp
  then have "keeps_calls (trace st) (visitInMigrations api PostAnalysis run')"
    by (rule visitInMigrations_keeps [OF rec])
  with k Some r show ?thesis
    by (cases err) (simp_all add: final_run_def Let_def)
qed

lemma final_run_trace:
  "trace (shared (final_run api host reader ctx prog types target data additional st))
     = trace (fst (migrate_reading api host reader ctx prog types target data additional st))"
proof (cases additional)
  case None
  then show ?thesis by (simp add: final_run_def Let_def migrate_reading_None)
next
  case (Some paths)
  then show ?thesis
    by (simp add: final_run_def Let_def migrate_reading_Some reportFailures_fields
          visitInMigrations_fields split: prod.splits option.splits)
qed

lemma final_run_calls:
  "migrations (final_run recording_api host reader ctx prog [()] target data additional st)
     = [calls_of (new_events st
          (fst (migrate_reading recording_api host reader ctx prog [()] target data additional st)))]"
proof -
  have "createMigrations recording_api ctx prog (fileSystem st) [()] target data = [[]]"
    by (simp add: createMigrations_def recording_api_def)
  with call_method_recording
  have "keeps_calls (trace st)
          (final_run recording_api host reader ctx prog [()] target data additional st)"
    by (rule final_run_keeps)
  from keeps_callsD(2) [OF this] show ?thesis
    by (simp add: new_events_def final_run_trace)
qed

text \<open>
  Claim C1.  The trace holds every call that \<^verbatim>\<open>migrate\<close> makes into the migrations,
  entered where the call is made; a recording migration receives exactly the calls of the
  trace.  In one call of \<^verbatim>\<open>migrate\<close>, and in any sequence of calls on the same set
  of analyzed files, no resolved path is visited more than once, leaving aside the
  visits of inline templates and stylesheets, which are not checked against the set.  A
  path that was in the set before is not visited, and the set grows by exactly the paths
  that are visited.  This holds also when a call throws, for what it did until then.  The
  additional stylesheets are taken to be read as the stylesheets of the paths given.
\<close>

theorem migrate_visits_each_path_once:
  fixes api :: "('c, 'x, 'd, 'm) migration_api"
  assumes "reads_external reader"
  shows
  "trace (migrate_all api host reader calls st)
     = trace st @ new_events st (migrate_all api host reader calls st) \<and>
   distinct (checked_paths host (new_events st (migrate_all api host reader calls st))) \<and>
   count_list (checked_paths host (new_events st (migrate_all api host reader calls st))) p \<le> 1 \<and>
   set (checked_paths host (new_events st (migrate_all api host reader calls st)))
     \<inter> analyzedFiles st = {} \<and>
   analyzedFiles (migrate_all api host reader calls st)
     = analyzedFiles st
       \<union> set (visited_paths host (new_events st (migrate_all api host reader calls st))) \<and>
   visits_once host st
     (fst (migrate_reading api host reader ctx prog types target data additional st)) \<and>
   migrations (final_run recording_api host reader ctx prog [()] target data additional st)
     = [calls_of (new_events st
          (fst (migrate_reading recording_api host reader ctx prog [()] target data
                  additional st)))]"
proof -
  let ?evs = "new_events st (migrate_all api host reader calls st)"
  have all: "visits_once host st (migrate_all api host reader calls st)"
    using assms by (rule migrate_all_once)
  then have "distinct (checked_paths host ?evs)"
    by (simp add: visits_once_def)
  then have "count_list (checked_paths host ?evs) p \<le> 1"
    by (rule distinct_count_le_1)
  with all migrate_reading_once [OF assms, of host st api ctx prog types target data additional]
  show ?thesis
    by (simp add: visits_once_def final_run_calls)
qed

text \<open>
  The theorem on the small project, migrated twice on the same set of analyzed files,
  with readable stylesheets.  The source file, the external template and the additional
  stylesheet are visited in the first call and in it alone; the inline template is visited
  along with them.  The edit that the migration records at \<^verbatim>\<open>a.html\<close> is there
  once.  The recording migration receives the seven calls of one call of \<^verbatim>\<open>migrate\<close>.
\<close>

theorem migrate_visits_each_path_once_witness:
  "reads_external sample_reader \<and>
   checked_paths sample_host
     (new_events sample_state
        (migrate_all sample_api sample_host sample_reader [sample_call, sample_call] sample_state))
     = [''a.ts'', ''a.html'', ''g.css''] \<and>
   visited_paths sample_host
     (new_events sample_state
        (migrate_all sample_api sample_host sample_reader [sample_call, sample_call] sample_state))
     = [''a.ts'', ''a.html'', ''a.ts'', ''g.css''] \<and>
   count_list
     (checked_paths sample_host
        (new_events sample_state
           (migrate_all sample_api sample_host sample_reader [sample_call, sample_call]
              sample_state))) ''a.html'' = 1 \<and>
   analyzedFiles
     (migrate_all sample_api sample_host sample_reader [sample_call, sample_call] sample_state)
     = {''a.ts'', ''a.html'', ''g.css''} \<and>
   fs_recorders
     (fileSystem
        (migrate_all sample_api sample_host sample_reader [sample_call, sample_call] sample_state))
     ''a.html'' = [Remove 0 1] \<and>
   migrations
     (final_run recording_api sample_host sample_reader () sample_program [()] V6 ()
        (Some [''g.css'']) sample_state)
     = [[VisitNode (SourceFile (hd (getSourceFiles sample_program))),
         VisitNode (Node (TsNode False (Some OtherSyntaxKind) ''C'' 0 ''a.ts''
                            [TsNode True (Some OtherSyntaxKind) ''k'' 3 ''a.ts'' []])),
         VisitNode (Node (TsNode True (Some OtherSyntaxKind) ''k'' 3 ''a.ts'' [])),
         VisitTemplate \<lparr>res_filePath = ''a.html'', res_content = ''x'', res_start = 0,
                         res_inline = False\<rparr>,
         VisitTemplate \<lparr>res_filePath = ''a.ts'', res_content = ''y'', res_start = 7,
                         res_inline = True\<rparr>,
         VisitStylesheet \<lparr>res_filePath = ''g.css'', res_content = [], res_start = 0,
                           res_inline = False\<rparr>,
         PostAnalysis]]"
proof -
  have r: "reads_external sample_reader"
    by (auto simp: reads_external_def sample_reader_def sample_read_def split: if_splits)
  have t: "trace (migrate_all sample_api sample_host sample_reader [sample_call, sample_call]
                    sample_state)
             = [Called (VisitNode (SourceFile (hd (getSourceFiles sample_program)))),
                Called (VisitNode (Node (TsNode False (Some OtherSyntaxKind) ''C'' 0 ''a.ts''
                            [TsNode True (Some OtherSyntaxKind) ''k'' 3 ''a.ts'' []]))),
                Called (VisitNode (Node (TsNode True (Some OtherSyntaxKind) ''k'' 3 ''a.ts'' []))),
                Called (VisitTemplate \<lparr>res_filePath = ''a.html'', res_content = ''x'',
                                        res_start = 0, res_inline = False\<rparr>),
                Called (VisitTemplate \<lparr>res_filePath = ''a.ts'', res_content = ''y'',
                                        res_start = 7, res_inline = True\<rparr>),
                Called (VisitStylesheet \<lparr>res_filePath = ''g.css'', res_content = [],
                                          res_start = 0, res_inline = False\<rparr>),
                Called PostAnalysis, Called PostAnalysis]"
    by (simp add: sample_defs migrate_all_def migrate_call_def)
  have a: "analyzedFiles
             (migrate_all sample_api sample_host sample_reader [sample_call, sample_call]
                sample_state) = {''a.ts'', ''a.html'', ''g.css''}"
    by (simp add: sample_defs migrate_all_def migrate_call_def insert_commute)
  have f: "fs_recorders
             (fileSystem
                (migrate_all sample_api sample_host sample_reader [sample_call, sample_call]
                   sample_state)) ''a.html'' = [Remove 0 1]"
    by (simp add: sample_defs migrate_all_def migrate_call_def)
  have n: "trace sample_state = []"
    by (simp add: sample_state_def)
  have h: "resolve sample_host = (\<lambda>p. p)"
    by (simp add: sample_host_def)
  from migrate_visits_each_path_once
    [OF r, where api = sample_api and host = sample_host
       and calls = "[sample_call, sample_call]" and st = sample_state and p = "''a.html''"
       and ctx = "()" and prog = sample_program and types = "[''M'']" and target = V6
       and data = "()" and additional = "Some [''g.css'']"]
  have "migrations
     (final_run recording_api sample_host sample_reader () sample_program [()] V6 ()
        (Some [''g.css'']) sample_state)
     = [calls_of (new_events sample_state
          (fst (migrate_reading recording_api sample_host sample_reader () sample_program [()]
                  V6 () (Some [''g.css'']) sample_state)))]"
    by simp
  also have "\<dots> = [[VisitNode (SourceFile (hd (getSourceFiles sample_program))),
         VisitNode (Node (TsNode False (Some OtherSyntaxKind) ''C'' 0 ''a.ts''
                            [TsNode True (Some OtherSyntaxKind) ''k'' 3 ''a.ts'' []])),
         VisitNode (Node (TsNode True (Some OtherSyntaxKind) ''k'' 3 ''a.ts'' [])),
         VisitTemplate \<lparr>res_filePath = ''a.html'', res_content = ''x'', res_start = 0,
                         res_inline = False\<rparr>,
         VisitTemplate \<lparr>res_filePath = ''a.ts'', res_content = ''y'', res_start = 7,
                         res_inline = True\<rparr>,
         VisitStylesheet \<lparr>res_filePath = ''g.css'', res_content = [], res_start = 0,
                           res_inline = False\<rparr>,
         PostAnalysis]]"
    by (simp add: sample_defs recording_api_def new_events_def)
  finally show ?thesis
    using r a f by (simp add: new_events_def t n h sample_program_def)
qed

subsection \<open>What has been analyzed when \<^verbatim>\<open>migrate\<close> reaches the additional stylesheets\<close>












subsection \<open>Whether a call with a list of paths returns\<close>








subsection \<open>Failures are reported when the call gets that far\<close>

lemma visitAdditionalStylesheet_logger:
  "logger (shared (visitAdditionalStylesheet api host filePath run)) = logger (shared run)"
  by (simp add: visitAdditionalStylesheet_def visitExternalStylesheet_logger)

text \<open>
  When \<^verbatim>\<open>migrate\<close> is given a list of additional stylesheets it returns; it has then
  logged one warning for each failure that the migrations hold after
  \<^verbatim>\<open>postAnalysis\<close>, in their order, and \<^verbatim>\<open>hasFailures\<close> says whether some
  migration holds a failure.
\<close>

lemma migrate_reports_failures:
  fixes api :: "('c, 'x, 'd, 'm) migration_api"
  defines "ms \<equiv> \<lambda>host ctx prog types target data paths st.
     migrations (visitInMigrations api PostAnalysis
       (fold (visitAdditionalStylesheet api host) paths
          (visitComponents api host ctx prog types target data st)))"
  shows
  "snd (migrate api host ctx prog types target data (Some paths) st)
     = Inr \<lparr>hasFailures =
         (\<exists>m\<in>set (ms host ctx prog types target data paths st). m_failures api m \<noteq> [])\<rparr> \<and>
   logger (fst (migrate api host ctx prog types target data (Some paths) st))
     = logger st @
       map (\<lambda>f. LogWarn (failure_warning host f))
         (concat (map (m_failures api) (ms host ctx prog types target data paths st)))"
  by (simp add: ms_def migrate_Some reportFailures_result collectFailures_concat
        visitComponents_logger
        fold_logger [where f = "visitAdditionalStylesheet api host",
          OF visitAdditionalStylesheet_logger])

text \<open>
  Claim C6.  When \<^verbatim>\<open>additionalStylesheetPaths\<close> is left out, which the signature of
  \<^verbatim>\<open>migrate\<close> allows, the call does not run to completion: it throws before the
  failures are collected, returns no result and logs nothing.  On the small project the
  migration holds two failures at that point, and neither is reported.
\<close>

theorem migrate_without_paths_reports_nothing:
  "snd (migrate api host ctx prog types target data None st) = Inl TypeError \<and>
   logger (fst (migrate api host ctx prog types target data None st)) = logger st \<and>
   collectFailures sample_api
     (migrations (visitComponents sample_api sample_host () sample_program [''M''] V6 ()
                    sample_state))
     = [\<lparr>failure_filePath = ''a.html'', failure_message = ''old selector'',
         failure_position = Some (0, 41)\<rparr>,
        \<lparr>failure_filePath = ''a.ts'', failure_message = ''old selector'',
         failure_position = Some (0, 41)\<rparr>] \<and>
   snd (migrate sample_api sample_host () sample_program [''M''] V6 () None sample_state)
     = Inl TypeError \<and>
   logger (fst (migrate sample_api sample_host () sample_program [''M''] V6 () None
                  sample_state)) = []"
proof -
  have "collectFailures sample_api
     (migrations (visitComponents sample_api sample_host () sample_program [''M''] V6 ()
                    sample_state))
     = [\<lparr>failure_filePath = ''a.html'', failure_message = ''old selector'',
         failure_position = Some (0, 41)\<rparr>,
        \<lparr>failure_filePath = ''a.ts'', failure_message = ''old selector'',
         failure_position = Some (0, 41)\<rparr>]"
    by (simp add: sample_defs)
  moreover have "logger sample_state = []"
    by (simp add: sample_state_def)
  ultimately show ?thesis
    by (simp add: migrate_None visitComponents_logger)
qed

section \<open>Properties of the migration schematic rule\<close>











end
